theory Spec2Isabelle
  imports Complex_Main "HOL-Library.Word"
begin

section \<open>Motion classifier: \<open>DetectMotion\<close>\<close>

text \<open>
  The embedding follows \<^verbatim>\<open>src/picam/picam.py\<close>. A motion frame is the array \<^verbatim>\<open>a\<close> handed
  to \<^verbatim>\<open>analyze\<close>; only its fields \<^verbatim>\<open>a['x']\<close> and \<^verbatim>\<open>a['y']\<close> are read, and every
  operation on it is element-wise or a sum over all elements, so the two-dimensional
  array is a list of \<open>(x, y)\<close> pairs. The components are integers (the camera library
  declares them as signed bytes; the model takes any integer).

  Timestamps (\<^verbatim>\<open>time.time()\<close>) are real numbers: the rounding of a floating-point
  subtraction is not modelled.
\<close>

type_synonym motion_vector = "int \<times> int"
type_synonym frame = "motion_vector list"

text \<open>
  \<^verbatim>\<open>np.sqrt(np.square(x) + np.square(y)).clip(0, 255).astype(np.uint8)\<close>, on the components
  converted to 64-bit floats (\<^verbatim>\<open>np.float\<close>): the conversion to \<^verbatim>\<open>uint8\<close> truncates, and the
  clipped value is below 256, so the result is the integer square root of \<open>x\<^sup>2 + y\<^sup>2\<close>,
  capped at 255. The floating-point square root does not change this: for integer
  components the sum of squares is exact as long as it matters (anything from \<open>256\<^sup>2\<close> on
  is clipped to 255 whatever its rounding), and a correctly rounded root of an integer
  below \<open>256\<^sup>2\<close> never reaches the next integer. \<open>isqrt\<close> computes the integer square root
  digit by digit in base 2; \<open>isqrt_floor_sqrt\<close> below ties it to the real square root.
\<close>

fun isqrt :: "nat \<Rightarrow> nat" where
  "isqrt n = (if n = 0 then 0
     else let r = 2 * isqrt (n div 4) in if (r + 1) * (r + 1) \<le> n then r + 1 else r)"

declare isqrt.simps [simp del]

definition magnitude :: "motion_vector \<Rightarrow> 8 word" where
  "magnitude v = word_of_nat (min 255 (isqrt (nat (fst v * fst v + snd v * snd v))))"

text \<open>\<^verbatim>\<open>(a > m).sum()\<close>: the number of elements strictly above \<open>m\<close>.\<close>

definition count_exceeding :: "int \<Rightarrow> 8 word list \<Rightarrow> int" where
  "count_exceeding m ms = int (length (filter (\<lambda>v. m < uint v) ms))"

record DetectMotion =
  motion_magnitude :: int
  motion_vector_count :: int
  motion_detected :: bool
  latest_motion :: real
  motion_timeout :: real

text \<open>\<^verbatim>\<open>__init__(motion_timeout=5, motion_magnitude=30, motion_vector_count=20)\<close>\<close>

definition DetectMotion_init :: "real \<Rightarrow> int \<Rightarrow> int \<Rightarrow> DetectMotion" where
  "DetectMotion_init timeout mag cnt =
     \<lparr>motion_magnitude = mag, motion_vector_count = cnt,
      motion_detected = False, latest_motion = 0, motion_timeout = timeout\<rparr>"

definition DetectMotion_default :: DetectMotion where
  "DetectMotion_default = DetectMotion_init 5 30 20"

text \<open>The condition of the first branch of \<^verbatim>\<open>analyze\<close>.\<close>

definition found_motion :: "DetectMotion \<Rightarrow> frame \<Rightarrow> bool" where
  "found_motion s a =
     (motion_vector_count s < count_exceeding (motion_magnitude s) (map magnitude a))"

text \<open>\<^verbatim>\<open>analyze(self, a)\<close>, with the reading \<open>ts\<close> of \<^verbatim>\<open>time.time()\<close> as an argument.\<close>

definition analyze :: "DetectMotion \<Rightarrow> frame \<Rightarrow> real \<Rightarrow> DetectMotion" where
  "analyze s a ts =
     (if found_motion s a
      then s\<lparr>latest_motion := ts, motion_detected := True\<rparr>
      else if motion_detected s \<and> ts - latest_motion s > motion_timeout s
      then s\<lparr>motion_detected := False\<rparr>
      else s)"

text \<open>
  The camera library calls \<^verbatim>\<open>analyze\<close> once per frame, in arrival order. \<open>run\<close> is the
  state after a sequence of frames, each with its clock reading; \<open>states\<close> lists the
  state before the first call and after each call.
\<close>

fun run :: "DetectMotion \<Rightarrow> (frame \<times> real) list \<Rightarrow> DetectMotion" where
  "run s [] = s"
| "run s (ft # fs) = run (analyze s (fst ft) (snd ft)) fs"

fun states :: "DetectMotion \<Rightarrow> (frame \<times> real) list \<Rightarrow> DetectMotion list" where
  "states s [] = [s]"
| "states s (ft # fs) = s # states (analyze s (fst ft) (snd ft)) fs"

section \<open>Files on disk\<close>

text \<open>
  The working directory is a map from file names to contents. Every failing library
  call is a value of \<open>error\<close>; a function that can fail returns the file system it
  leaves behind together with the error it raised, if any.
\<close>

type_synonym bytes = "8 word list"
type_synonym filesystem = "string \<rightharpoonup> bytes"

datatype error =
  FileNotFoundError string
  | UnboundLocalError string
  | OSError string
  | KeyboardInterrupt

text \<open>
  The circular buffer \<^verbatim>\<open>stream\<close> is the list of the encoded frames it holds, oldest
  first; \<open>sps_header\<close> marks a frame whose type is \<^verbatim>\<open>PiVideoFrameType.sps_header\<close>. The
  camera library appends to it and keeps its position at the end, so when no header
  frame is found \<^verbatim>\<open>read1\<close> has nothing to return.
\<close>

record video_frame =
  sps_header :: bool
  payload :: bytes

text \<open>
  \<^verbatim>\<open>write_video(stream, ts)\<close>: the file \<^verbatim>\<open>{ts}.h264\<close> is created or truncated and receives
  the buffer from its first header frame on; the buffer is then emptied.
\<close>

definition write_video ::
  "video_frame list \<Rightarrow> string \<Rightarrow> filesystem \<Rightarrow> filesystem \<times> video_frame list" where
  "write_video stream_frames stamp fs =
     (fs(stamp @ ''.h264'' \<mapsto> concat (map payload (dropWhile (\<lambda>f. \<not> sps_header f) stream_frames))),
      [])"

text \<open>
  \<^verbatim>\<open>concat_vids(ts)\<close>: mode \<^verbatim>\<open>'ab'\<close> creates \<^verbatim>\<open>{ts}.h264\<close> when it is missing, mode \<^verbatim>\<open>'rb'\<close>
  raises when \<^verbatim>\<open>after.h264\<close> is missing; the contents of the second are appended to the
  first and the second is removed.
\<close>

definition concat_vids :: "string \<Rightarrow> filesystem \<Rightarrow> filesystem \<times> error option" where
  "concat_vids stamp fs =
     (let before = stamp @ ''.h264'';
          fs1 = (case fs before of None \<Rightarrow> fs(before \<mapsto> []) | Some _ \<Rightarrow> fs)
      in case fs1 ''after.h264'' of
           None \<Rightarrow> (fs1, Some (FileNotFoundError ''after.h264''))
         | Some after \<Rightarrow>
             (let old = (case fs1 before of None \<Rightarrow> [] | Some b \<Rightarrow> b);
                  fs2 = fs1(before \<mapsto> old @ after)
              in (fs2(''after.h264'' := None), None)))"

text \<open>
  The external transcoder is a parameter: given the command line and the file system it
  either cannot be started (\<^verbatim>\<open>subprocess.run\<close> raises) or exits with a return code,
  leaving a file system behind.
\<close>

datatype process_result = Exited int filesystem | NotStarted error

type_synonym transcoder = "string list \<Rightarrow> filesystem \<Rightarrow> process_result"

definition convert_cmd :: "string \<Rightarrow> string list" where
  "convert_cmd stamp =
     [''/usr/bin/avconv'', ''-i'', stamp @ ''.h264'', ''-acodec'', ''copy'', ''-vcodec'', ''copy'',
      stamp @ ''.mp4'']"

text \<open>\<^verbatim>\<open>convert_video(ts)\<close>: \<^verbatim>\<open>os.remove(infile)\<close> runs only after return code 0.\<close>

definition convert_video :: "transcoder \<Rightarrow> string \<Rightarrow> filesystem \<Rightarrow> filesystem \<times> error option" where
  "convert_video avconv stamp fs =
     (let infile = stamp @ ''.h264'' in
      case avconv (convert_cmd stamp) fs of
        NotStarted e \<Rightarrow> (fs, Some e)
      | Exited returncode fs1 \<Rightarrow>
          if returncode = 0
          then (case fs1 infile of
                  None \<Rightarrow> (fs1, Some (FileNotFoundError infile))
                | Some _ \<Rightarrow> (fs1(infile := None), None))
          else (fs1, None))"

section \<open>File names\<close>

record datetime =
  year :: nat
  month :: nat
  day :: nat
  hour :: nat
  minute :: nat
  second :: nat

fun decimal :: "nat \<Rightarrow> string" where
  "decimal n =
     (if n < 10 then [''0123456789'' ! n]
      else decimal (n div 10) @ [''0123456789'' ! (n mod 10)])"

declare decimal.simps [simp del]

text \<open>\<^verbatim>\<open>{:03d}\<close> and the fields of \<^verbatim>\<open>strftime\<close>: decimal digits, zero-filled to a width.\<close>

definition zero_pad :: "nat \<Rightarrow> nat \<Rightarrow> string" where
  "zero_pad w n = replicate (w - length (decimal n)) CHR ''0'' @ decimal n"

text \<open>\<^verbatim>\<open>"{:%Y-%m-%d-%H%M%S}".format(now)\<close>\<close>

definition strftime_stamp :: "datetime \<Rightarrow> string" where
  "strftime_stamp d =
     zero_pad 4 (year d) @ ''-'' @ zero_pad 2 (month d) @ ''-'' @ zero_pad 2 (day d) @ ''-'' @
     zero_pad 2 (hour d) @ zero_pad 2 (minute d) @ zero_pad 2 (second d)"

text \<open>
  \<^verbatim>\<open>gen_img_name()\<close> is a generator whose only state is \<^verbatim>\<open>counter\<close>, 0 when it is
  created. One \<^verbatim>\<open>next\<close> on it increments the counter and yields the name built from
  the current time and the counter.
\<close>

definition gen_img_name :: "datetime \<Rightarrow> nat \<Rightarrow> string \<times> nat" where
  "gen_img_name now counter =
     (let counter' = counter + 1
      in (strftime_stamp now @ ''-'' @ zero_pad 3 counter' @ ''.jpg'', counter'))"

section \<open>The control loop: \<open>main\<close>\<close>

text \<open>
  The camera is an external collaborator. The calls \<^verbatim>\<open>main\<close> makes on it, and the calls
  of the helpers above, are recorded in order in \<open>calls\<close>; the camera's own effects are
  modelled only as far as the helpers read them: \<^verbatim>\<open>split_recording("after.h264")\<close>
  creates that file, and the encoder's output goes to the current target of splitter
  port 1 (the circular buffer or that file). The size of the buffer (\<^verbatim>\<open>circular_secs\<close>)
  and the analysis size (\<^verbatim>\<open>motion_size\<close>) only configure the camera and are left out.
\<close>

datatype target = Stream | File string

datatype event =
  Rotation int
  | StartRecording target nat
  | WaitRecording real nat
  | SplitRecording target
  | WriteVideo string
  | Capture string
  | ConcatVids string
  | ConvertVideo string
  | StopRecording nat

record config =
  flip :: bool
  convert_vids :: real
  still_img_interval :: real

text \<open>
  \<^verbatim>\<open>convert_vids\<close> is \<^verbatim>\<open>False\<close>, \<^verbatim>\<open>True\<close> or a number of seconds; it is used as a truth
  value and as a number, \<^verbatim>\<open>False\<close> being 0 and \<^verbatim>\<open>True\<close> being 1.
\<close>

definition main_defaults :: config where
  "main_defaults = \<lparr>flip = False, convert_vids = 0, still_img_interval = 1 / 4\<rparr>"

record state =
  motion_output :: DetectMotion
  files :: filesystem
  stream :: "video_frame list"
  recording_to :: target
  img_counter :: nat
  ts_local :: "string option"
  calls :: "event list"

text \<open>
  \<^verbatim>\<open>analyze\<close> runs on the camera's thread. The model lets the environment act in slices
  of time: while \<^verbatim>\<open>main\<close> waits in \<^verbatim>\<open>wait_recording\<close>, or is busy between reading
  \<^verbatim>\<open>motion_detected\<close> in the \<^verbatim>\<open>if\<close> and reading it in the inner \<^verbatim>\<open>while\<close>. A slice holds
  the frames analysed in it with their clock readings, the frames the encoder produced,
  the files other processes removed, the exception delivered to the main thread if any
  (an operator's interrupt, or an error \<^verbatim>\<open>wait_recording\<close> re-raises), and the readings
  of \<^verbatim>\<open>time.time()\<close> and \<^verbatim>\<open>datetime.now()\<close> at its end. Each call of \<^verbatim>\<open>analyze\<close> and
  each read of its fields is atomic.
\<close>

record slice =
  analysed :: "(frame \<times> real) list"
  recorded :: "video_frame list"
  unlinked :: "string list"
  raised :: "error option"
  time_time :: real
  datetime_now :: datetime

definition record_video :: "video_frame list \<Rightarrow> state \<Rightarrow> state" where
  "record_video vs st =
     (case recording_to st of
        Stream \<Rightarrow> st\<lparr>stream := stream st @ vs\<rparr>
      | File p \<Rightarrow>
          (case files st p of
             None \<Rightarrow> st
           | Some old \<Rightarrow> st\<lparr>files := (files st)(p \<mapsto> old @ concat (map payload vs))\<rparr>))"

definition deliver :: "slice \<Rightarrow> state \<Rightarrow> state" where
  "deliver sl st =
     (let st1 = record_video (recorded sl) st
      in st1\<lparr>motion_output := run (motion_output st1) (analysed sl),
              files := fold (\<lambda>p fs. fs(p := None)) (unlinked sl) (files st1)\<rparr>)"

text \<open>
  The loop has two places where it reads \<^verbatim>\<open>motion_detected\<close>: \<open>LoopTop\<close>, the \<^verbatim>\<open>if\<close> after
  the one-second wait, and \<open>InEpisode\<close>, the condition of the inner \<^verbatim>\<open>while\<close>. A step runs
  the code from one read to the next and says where the loop goes on, or which
  exception left it. Reading the local \<^verbatim>\<open>ts\<close> before it was assigned raises
  \<^verbatim>\<open>UnboundLocalError\<close>; this can happen in the \<^verbatim>\<open>elif\<close> branch only (inside an episode
  \<^verbatim>\<open>ts\<close> has just been assigned, and the branch for an unbound \<^verbatim>\<open>ts\<close> in \<open>in_episode\<close>
  is there to keep the function total).
\<close>

datatype pc = LoopTop | InEpisode

datatype control = Continue pc | Raise error

definition loop_top :: "config \<Rightarrow> transcoder \<Rightarrow> slice \<Rightarrow> state \<Rightarrow> state \<times> control" where
  "loop_top cfg avconv sl st =
     (let st1 = deliver sl (st\<lparr>calls := calls st @ [WaitRecording 1 1, WaitRecording 0 2]\<rparr>)
      in case raised sl of
           Some e \<Rightarrow> (st1, Raise e)
         | None \<Rightarrow>
             if motion_detected (motion_output st1)
             then
               (let st2 = st1\<lparr>files := (files st1)(''after.h264'' \<mapsto> []),
                              recording_to := File ''after.h264'',
                              calls := calls st1 @ [SplitRecording (File ''after.h264'')]\<rparr>;
                    stamp = strftime_stamp (datetime_now sl);
                    (fs3, stream3) = write_video (stream st2) stamp (files st2)
                in (st2\<lparr>ts_local := Some stamp, files := fs3, stream := stream3,
                        calls := calls st2 @ [WriteVideo stamp]\<rparr>,
                    Continue InEpisode))
             else if convert_vids cfg \<noteq> 0 \<and>
                     convert_vids cfg < time_time sl - latest_motion (motion_output st1)
             then
               (case ts_local st1 of
                  None \<Rightarrow> (st1, Raise (UnboundLocalError ''ts''))
                | Some stamp \<Rightarrow>
                    (let (fs2, err) = convert_video avconv stamp (files st1);
                         st2 = st1\<lparr>files := fs2, calls := calls st1 @ [ConvertVideo stamp]\<rparr>
                     in (st2, case err of None \<Rightarrow> Continue LoopTop | Some e \<Rightarrow> Raise e)))
             else (st1, Continue LoopTop))"

definition in_episode :: "config \<Rightarrow> slice \<Rightarrow> state \<Rightarrow> state \<times> control" where
  "in_episode cfg sl st =
     (let st1 = deliver sl st
      in case raised sl of
           Some e \<Rightarrow> (st1, Raise e)
         | None \<Rightarrow>
             if motion_detected (motion_output st1)
             then
               (let (name, counter') = gen_img_name (datetime_now sl) (img_counter st1)
                in (st1\<lparr>img_counter := counter',
                        calls := calls st1 @
                          [Capture name, WaitRecording (still_img_interval cfg) 1]\<rparr>,
                    Continue InEpisode))
             else
               (let st2 = st1\<lparr>recording_to := Stream,
                              calls := calls st1 @ [SplitRecording Stream]\<rparr>
                in case ts_local st2 of
                     None \<Rightarrow> (st2, Raise (UnboundLocalError ''ts''))
                   | Some stamp \<Rightarrow>
                       (let (fs3, err) = concat_vids stamp (files st2);
                            st3 = st2\<lparr>files := fs3, calls := calls st2 @ [ConcatVids stamp]\<rparr>
                        in (st3, case err of None \<Rightarrow> Continue LoopTop | Some e \<Rightarrow> Raise e))))"

definition step :: "config \<Rightarrow> transcoder \<Rightarrow> pc \<Rightarrow> slice \<Rightarrow> state \<Rightarrow> state \<times> control" where
  "step cfg avconv p sl st =
     (case p of LoopTop \<Rightarrow> loop_top cfg avconv sl st | InEpisode \<Rightarrow> in_episode cfg sl st)"

text \<open>
  \<^verbatim>\<open>while True\<close> has no exit of its own. \<open>run_loop\<close> runs it for as long as the environment
  is described: on a finite list of slices it ends with the exception that left the
  loop, or with \<open>Continue p\<close> when the list is used up and the loop is still going.
\<close>

fun run_loop ::
  "config \<Rightarrow> transcoder \<Rightarrow> pc \<Rightarrow> slice list \<Rightarrow> state \<Rightarrow> state \<times> control" where
  "run_loop cfg avconv p [] st = (st, Continue p)"
| "run_loop cfg avconv p (sl # rest) st =
     (case step cfg avconv p sl st of
        (st', Continue p') \<Rightarrow> run_loop cfg avconv p' rest st'
      | (st', Raise e) \<Rightarrow> (st', Raise e))"

text \<open>
  \<^verbatim>\<open>main\<close>: the classifier is created with its defaults, the two recordings start, the
  warm-up wait of two seconds passes (the slice \<open>warmup\<close>), \<^verbatim>\<open>motion_detected\<close> is forced
  to \<^verbatim>\<open>False\<close> and the loop runs. Only \<^verbatim>\<open>KeyboardInterrupt\<close> is caught; the \<^verbatim>\<open>finally\<close>
  clause stops both recordings on every way out.
\<close>

datatype outcome = Running pc | Returned | Propagated error

definition initial_state :: "config \<Rightarrow> filesystem \<Rightarrow> state" where
  "initial_state cfg fs0 =
     \<lparr>motion_output = DetectMotion_default, files = fs0, stream = [], recording_to = Stream,
      img_counter = 0, ts_local = None,
      calls = (if flip cfg then [Rotation 180] else []) @
        [StartRecording Stream 1, StartRecording (File ''/dev/null'') 2, WaitRecording 2 1]\<rparr>"

definition main ::
  "config \<Rightarrow> transcoder \<Rightarrow> filesystem \<Rightarrow> slice \<Rightarrow> slice list \<Rightarrow> state \<times> outcome" where
  "main cfg avconv fs0 warmup script =
     (let st1 = deliver warmup (initial_state cfg fs0);
          (st2, c) =
            (case raised warmup of
               Some e \<Rightarrow> (st1, Raise e)
             | None \<Rightarrow>
                 run_loop cfg avconv LoopTop script
                   (st1\<lparr>motion_output := (motion_output st1)\<lparr>motion_detected := False\<rparr>\<rparr>))
      in case c of
           Continue p \<Rightarrow> (st2, Running p)
         | Raise e \<Rightarrow>
             (st2\<lparr>calls := calls st2 @ [StopRecording 1, StopRecording 2]\<rparr>,
              if e = KeyboardInterrupt then Returned else Propagated e))"

text \<open>The names of the still images captured, in order: the arguments of \<^verbatim>\<open>camera.capture\<close>.\<close>

fun stills :: "event list \<Rightarrow> string list" where
  "stills [] = []"
| "stills (Capture name # es) = name # stills es"
| "stills (_ # es) = stills es"

section \<open>Sample environments\<close>

text \<open>
  Concrete inputs for the runs evaluated below: a frame of 21 vectors of magnitude 40
  (it triggers under the defaults), clock readings on 2024-01-01 at 12:00, and slices
  in which nothing happens (\<open>idle_slice\<close>), one triggering frame is analysed
  (\<open>motion_slice\<close>) or one empty frame is analysed (\<open>still_slice\<close>).
\<close>

definition busy :: frame where
  "busy = replicate 21 (40, 0)"

definition clock :: "nat \<Rightarrow> datetime" where
  "clock s = \<lparr>year = 2024, month = 1, day = 1, hour = 12, minute = 0, second = s\<rparr>"

definition idle_slice :: "real \<Rightarrow> datetime \<Rightarrow> slice" where
  "idle_slice t d =
     \<lparr>analysed = [], recorded = [], unlinked = [], raised = None, time_time = t, datetime_now = d\<rparr>"

definition motion_slice :: "real \<Rightarrow> datetime \<Rightarrow> slice" where
  "motion_slice t d = (idle_slice t d)\<lparr>analysed := [(busy, t)]\<rparr>"

definition still_slice :: "real \<Rightarrow> datetime \<Rightarrow> slice" where
  "still_slice t d = (idle_slice t d)\<lparr>analysed := [([], t)]\<rparr>"

section \<open>Properties of the classifier\<close>

lemma isqrt_bounds: "isqrt n * isqrt n \<le> n \<and> n < (isqrt n + 1) * (isqrt n + 1)"
proof (induction n rule: isqrt.induct)
  case (1 n)
  show ?case
  proof (cases "n = 0")
    case True
    then show ?thesis by (simp add: isqrt.simps)
  next
    case False
    define q where "q = isqrt (n div 4)"
    from 1 False have ih: "q * q \<le> n div 4" "n div 4 < (q + 1) * (q + 1)"
      by (simp_all add: q_def)
    have "4 * (q * q) \<le> 4 * (n div 4)" using ih(1) by simp
    then have lo: "(2 * q) * (2 * q) \<le> n" by simp
    have "n div 4 + 1 \<le> (q + 1) * (q + 1)" using ih(2) by simp
    then have "4 * (n div 4 + 1) \<le> 4 * ((q + 1) * (q + 1))" by (rule mult_le_mono2)
    moreover have "n < 4 * (n div 4 + 1)" by simp
    ultimately have "n < 4 * ((q + 1) * (q + 1))" by linarith
    then have hi: "n < (2 * q + 2) * (2 * q + 2)" by (simp add: algebra_simps)
    have eq: "isqrt n = (if (2 * q + 1) * (2 * q + 1) \<le> n then 2 * q + 1 else 2 * q)"
      using False by (subst isqrt.simps) (simp add: Let_def q_def)
    show ?thesis
    proof (cases "(2 * q + 1) * (2 * q + 1) \<le> n")
      case True
      with eq hi show ?thesis by (simp add: algebra_simps)
    next
      case False
      with eq lo show ?thesis by (simp add: algebra_simps)
    qed
  qed
qed

lemma isqrt_floor_sqrt: "int (isqrt n) = \<lfloor>sqrt (real n)\<rfloor>"
proof -
  have "real (isqrt n * isqrt n) \<le> real n"
    using isqrt_bounds [of n] by (simp only: of_nat_le_iff)
  then have "(real (isqrt n))\<^sup>2 \<le> real n"
    by (simp add: power2_eq_square)
  then have a: "real (isqrt n) \<le> sqrt (real n)"
    by (rule real_le_rsqrt)
  have "real n < real ((isqrt n + 1) * (isqrt n + 1))"
    using isqrt_bounds [of n] by (simp only: of_nat_less_iff)
  then have "real n < (real (isqrt n) + 1)\<^sup>2"
    by (simp add: power2_eq_square algebra_simps)
  then have b: "sqrt (real n) < real (isqrt n) + 1"
    by (intro real_less_lsqrt) simp_all
  have "\<lfloor>sqrt (real n)\<rfloor> = int (isqrt n)"
    by (rule floor_unique) (use a b in simp_all)
  then show ?thesis by simp
qed

lemma uint_magnitude:
  "uint (magnitude (x, y)) = min 255 \<lfloor>sqrt (real_of_int (x\<^sup>2 + y\<^sup>2))\<rfloor>"
proof -
  define n where "n = nat (x * x + y * y)"
  have nn: "int n = x\<^sup>2 + y\<^sup>2"
    by (simp add: n_def power2_eq_square)
  have "unat (word_of_nat (min 255 (isqrt n)) :: 8 word) = min 255 (isqrt n)"
    by (simp add: unat_of_nat)
  then have "uint (word_of_nat (min 255 (isqrt n)) :: 8 word) = int (min 255 (isqrt n))"
    by (simp only: uint_nat)
  also have "\<dots> = min 255 (int (isqrt n))" by simp
  also have "int (isqrt n) = \<lfloor>sqrt (real n)\<rfloor>" by (rule isqrt_floor_sqrt)
  also have "real n = real_of_int (x\<^sup>2 + y\<^sup>2)"
    using nn by (metis of_int_of_nat_eq)
  finally show ?thesis by (simp add: magnitude_def n_def)
qed

lemma count_exceeding_replicate:
  "count_exceeding m (replicate n v) = (if m < uint v then int n else 0)"
  by (simp add: count_exceeding_def)

lemma found_motion_replicate:
  "found_motion s (replicate n v) =
     (motion_vector_count s < (if motion_magnitude s < uint (magnitude v) then int n else 0))"
  by (simp add: found_motion_def count_exceeding_replicate)

lemma found_motion_analyze [simp]: "found_motion (analyze s a ts) b = found_motion s b"
  by (simp add: found_motion_def analyze_def)

lemma magnitude_40_0: "magnitude (40, 0) = 40"
  by code_simp

lemma magnitude_30_0: "magnitude (30, 0) = 30"
  by code_simp


lemma analyze_config [simp]:
  "motion_magnitude (analyze s a ts) = motion_magnitude s"
  "motion_vector_count (analyze s a ts) = motion_vector_count s"
  "motion_timeout (analyze s a ts) = motion_timeout s"
  by (simp_all add: analyze_def)

lemma analyze_quiet_latest:
  "\<not> found_motion s a \<Longrightarrow> latest_motion (analyze s a ts) = latest_motion s"
  by (simp add: analyze_def)

lemma analyze_quiet_inactive:
  "\<not> found_motion s a \<Longrightarrow> \<not> motion_detected s \<Longrightarrow> \<not> motion_detected (analyze s a ts)"
  by (simp add: analyze_def)

lemma analyze_latest_bounds:
  "latest_motion s \<le> ts \<Longrightarrow>
     latest_motion s \<le> latest_motion (analyze s a ts) \<and> latest_motion (analyze s a ts) \<le> ts"
  by (simp add: analyze_def)

lemma states_coasting:
  "motion_detected s \<Longrightarrow>
   \<forall>ft \<in> set fs. \<not> found_motion s (fst ft) \<and> snd ft - latest_motion s \<le> motion_timeout s \<Longrightarrow>
   \<forall>s' \<in> set (states s fs). motion_detected s' \<and> latest_motion s' = latest_motion s"
proof (induction fs arbitrary: s)
  case Nil
  then show ?case by simp
next
  case (Cons ft fs)
  from Cons.prems have step: "analyze s (fst ft) (snd ft) = s"
    by (simp add: analyze_def)
  from Cons.IH [of s] Cons.prems show ?case
    by (simp add: step)
qed

lemma states_latest_sorted:
  "sorted (map snd fs) \<Longrightarrow> \<forall>t \<in> set (map snd fs). latest_motion s \<le> t \<Longrightarrow>
   sorted (map latest_motion (states s fs)) \<and>
   (\<forall>s' \<in> set (states s fs). latest_motion s \<le> latest_motion s')"
proof (induction fs arbitrary: s)
  case Nil
  then show ?case by simp
next
  case (Cons ft fs)
  define s1 where "s1 = analyze s (fst ft) (snd ft)"
  from Cons.prems(2) have "latest_motion s \<le> snd ft" by simp
  then have b: "latest_motion s \<le> latest_motion s1" "latest_motion s1 \<le> snd ft"
    using analyze_latest_bounds [of s "snd ft" "fst ft"] by (simp_all add: s1_def)
  from Cons.prems(1) have srt: "sorted (map snd fs)" and ge: "\<forall>t \<in> set (map snd fs). snd ft \<le> t"
    by simp_all
  from ge b(2) have "\<forall>t \<in> set (map snd fs). latest_motion s1 \<le> t" by fastforce
  with Cons.IH [of s1] srt
  have ih: "sorted (map latest_motion (states s1 fs))"
    "\<forall>s' \<in> set (states s1 fs). latest_motion s1 \<le> latest_motion s'"
    by simp_all
  from ih(2) b(1) have "\<forall>s' \<in> set (states s1 fs). latest_motion s \<le> latest_motion s'"
    by fastforce
  with ih(1) show ?case
    by (simp add: s1_def [symmetric])
qed

lemma run_quiet_latest:
  "\<forall>ft \<in> set fs. \<not> found_motion s (fst ft) \<Longrightarrow> latest_motion (run s fs) = latest_motion s"
  by (induction fs arbitrary: s) (simp_all add: analyze_quiet_latest)


lemma run_config [simp]:
  "motion_magnitude (run s fs) = motion_magnitude s"
  "motion_vector_count (run s fs) = motion_vector_count s"
  "motion_timeout (run s fs) = motion_timeout s"
  by (induction fs arbitrary: s) simp_all

lemma found_motion_run [simp]: "found_motion (run s fs) b = found_motion s b"
  by (simp add: found_motion_def)


lemma default_fields:
  "motion_magnitude DetectMotion_default = 30"
  "motion_vector_count DetectMotion_default = 20"
  "motion_timeout DetectMotion_default = 5"
  "latest_motion DetectMotion_default = 0"
  "motion_detected DetectMotion_default = False"
  by (simp_all add: DetectMotion_default_def DetectMotion_init_def)

lemma found_motion_busy:
  "motion_magnitude s = 30 \<Longrightarrow> motion_vector_count s = 20 \<Longrightarrow>
   found_motion s (replicate 21 (40, 0))"
  by (simp add: found_motion_replicate magnitude_40_0)

lemma found_motion_twenty:
  "motion_magnitude s = 30 \<Longrightarrow> motion_vector_count s = 20 \<Longrightarrow>
   \<not> found_motion s (replicate 20 (40, 0))"
  by (simp add: found_motion_replicate magnitude_40_0)

lemma found_motion_empty:
  "0 \<le> motion_vector_count s \<Longrightarrow> \<not> found_motion s []"
  by (simp add: found_motion_def count_exceeding_def)

lemma analyze_trigger:
  "found_motion s a \<Longrightarrow> analyze s a ts = s\<lparr>latest_motion := ts, motion_detected := True\<rparr>"
  by (simp add: analyze_def)

lemma analyze_clear:
  "\<not> found_motion s a \<Longrightarrow> motion_detected s \<Longrightarrow> motion_timeout s < ts - latest_motion s \<Longrightarrow>
   analyze s a ts = s\<lparr>motion_detected := False\<rparr>"
  by (simp add: analyze_def)

lemma analyze_coast:
  "\<not> found_motion s a \<Longrightarrow> \<not> (motion_detected s \<and> motion_timeout s < ts - latest_motion s) \<Longrightarrow>
   analyze s a ts = s"
  by (simp add: analyze_def)

lemmas concrete_frames =
  found_motion_busy found_motion_twenty found_motion_empty default_fields


subsection \<open>Triggering\<close>

text \<open>
  C1. \<^verbatim>\<open>analyze\<close> maps every vector to \<open>\<lfloor>sqrt (x\<^sup>2 + y\<^sup>2)\<rfloor>\<close> capped at 255, an unsigned
  byte; the defaults are magnitude 30, count 20 and timeout 5; and when the number of
  vectors whose magnitude is strictly above \<open>motion_magnitude\<close> is strictly above
  \<open>motion_vector_count\<close>, it sets \<open>motion_detected\<close> and stores the clock reading in
  \<open>latest_motion\<close>, whatever \<open>motion_detected\<close> was before, and changes nothing else.
\<close>

theorem analyze_records_motion:
  "uint (magnitude (x, y)) = min 255 \<lfloor>sqrt (real_of_int (x\<^sup>2 + y\<^sup>2))\<rfloor> \<and>
   found_motion s a =
     (motion_vector_count s < int (length (filter (\<lambda>v. motion_magnitude s < uint (magnitude v)) a))) \<and>
   motion_magnitude DetectMotion_default = 30 \<and>
   motion_vector_count DetectMotion_default = 20 \<and>
   motion_timeout DetectMotion_default = 5 \<and>
   (found_motion s a \<longrightarrow>
      analyze s a ts = s\<lparr>latest_motion := ts, motion_detected := True\<rparr> \<and>
      motion_detected (analyze s a ts) \<and> latest_motion (analyze s a ts) = ts)"
proof -
  have "found_motion s a =
     (motion_vector_count s < int (length (filter (\<lambda>v. motion_magnitude s < uint (magnitude v)) a)))"
    by (simp add: found_motion_def count_exceeding_def filter_map comp_def)
  moreover have "found_motion s a \<longrightarrow>
      analyze s a ts = s\<lparr>latest_motion := ts, motion_detected := True\<rparr> \<and>
      motion_detected (analyze s a ts) \<and> latest_motion (analyze s a ts) = ts"
    by (simp add: analyze_def)
  ultimately show ?thesis
    using uint_magnitude [of x y] by (simp only: default_fields simp_thms)
qed

theorem analyze_records_motion_witness:
  "found_motion (DetectMotion_default\<lparr>motion_detected := True, latest_motion := 3\<rparr>)
     (replicate 21 (40, 0)) \<and>
   analyze (DetectMotion_default\<lparr>motion_detected := True, latest_motion := 3\<rparr>)
     (replicate 21 (40, 0)) 100 =
   DetectMotion_default\<lparr>motion_detected := True, latest_motion := 100\<rparr> \<and>
   found_motion DetectMotion_default (replicate 21 (40, 0)) \<and>
   analyze DetectMotion_default (replicate 21 (40, 0)) 100 =
   DetectMotion_default\<lparr>motion_detected := True, latest_motion := 100\<rparr>"
proof -
  have f: "found_motion (DetectMotion_default\<lparr>motion_detected := True, latest_motion := 3\<rparr>)
      (replicate 21 (40, 0))"
    "found_motion DetectMotion_default (replicate 21 (40, 0))"
    by (simp_all add: found_motion_busy default_fields)
  from f(1)
    analyze_records_motion [of 40 0
      "DetectMotion_default\<lparr>motion_detected := True, latest_motion := 3\<rparr>"
      "replicate 21 (40, 0)" 100]
  have 1: "analyze (DetectMotion_default\<lparr>motion_detected := True, latest_motion := 3\<rparr>)
     (replicate 21 (40, 0)) 100 =
     DetectMotion_default\<lparr>motion_detected := True, latest_motion := 3\<rparr>
       \<lparr>latest_motion := 100, motion_detected := True\<rparr>"
    by blast
  from f(2) analyze_records_motion [of 40 0 DetectMotion_default "replicate 21 (40, 0)" 100]
  have 2: "analyze DetectMotion_default (replicate 21 (40, 0)) 100 =
     DetectMotion_default\<lparr>latest_motion := 100, motion_detected := True\<rparr>"
    by blast
  show ?thesis
    by (simp add: f 1 2)
qed

subsection \<open>Hysteresis\<close>

text \<open>
  C2. (a) \<^verbatim>\<open>analyze\<close> takes \<open>motion_detected\<close> from true to false only on a frame that
  does not trigger and whose clock reading is strictly more than \<open>motion_timeout\<close> after
  \<open>latest_motion\<close>. (b) After a triggering frame at \<open>t0\<close>, every later frame that does not
  trigger and arrives at most \<open>motion_timeout\<close> after \<open>t0\<close> leaves \<open>motion_detected\<close> true
  (and \<open>latest_motion\<close> at \<open>t0\<close>), however many such frames there are. (c) When the clock
  readings of successive calls do not decrease and none is below the stored
  \<open>latest_motion\<close>, the values \<open>latest_motion\<close> takes are non-decreasing.
\<close>

theorem analyze_hysteresis:
  "(motion_detected s \<and> \<not> motion_detected (analyze s a ts) \<longrightarrow>
      \<not> found_motion s a \<and> motion_timeout s < ts - latest_motion s) \<and>
   (found_motion s a0 \<and>
    (\<forall>ft \<in> set fs. \<not> found_motion s (fst ft) \<and> snd ft - t0 \<le> motion_timeout s) \<longrightarrow>
      (\<forall>s' \<in> set (states (analyze s a0 t0) fs). motion_detected s' \<and> latest_motion s' = t0)) \<and>
   (sorted (map snd gs) \<and> (\<forall>t \<in> set (map snd gs). latest_motion s \<le> t) \<longrightarrow>
      sorted (map latest_motion (states s gs)))"
proof (intro conjI impI)
  assume h: "motion_detected s \<and> \<not> motion_detected (analyze s a ts)"
  show "\<not> found_motion s a"
  proof
    assume "found_motion s a"
    then have "motion_detected (analyze s a ts)" by (simp add: analyze_def)
    with h show False by blast
  qed
  show "motion_timeout s < ts - latest_motion s"
  proof (rule ccontr)
    assume n: "\<not> motion_timeout s < ts - latest_motion s"
    have "motion_detected (analyze s a ts)"
    proof (cases "found_motion s a")
      case True
      then show ?thesis by (simp add: analyze_def)
    next
      case False
      with n h show ?thesis by (simp add: analyze_def)
    qed
    with h show False by blast
  qed
next
  assume h: "found_motion s a0 \<and>
    (\<forall>ft \<in> set fs. \<not> found_motion s (fst ft) \<and> snd ft - t0 \<le> motion_timeout s)"
  define s1 where "s1 = analyze s a0 t0"
  from h have s1: "motion_detected s1" "latest_motion s1 = t0"
    by (simp_all add: s1_def analyze_def)
  from h s1 have "\<forall>ft \<in> set fs. \<not> found_motion s1 (fst ft) \<and>
      snd ft - latest_motion s1 \<le> motion_timeout s1"
    by (simp add: s1_def)
  from states_coasting [OF s1(1) this] s1(2)
  show "\<forall>s' \<in> set (states (analyze s a0 t0) fs). motion_detected s' \<and> latest_motion s' = t0"
    by (simp add: s1_def)
next
  assume "sorted (map snd gs) \<and> (\<forall>t \<in> set (map snd gs). latest_motion s \<le> t)"
  then show "sorted (map latest_motion (states s gs))"
    using states_latest_sorted [of gs s] by blast
qed

theorem analyze_hysteresis_witness:
  "motion_detected (DetectMotion_default\<lparr>motion_detected := True, latest_motion := 10\<rparr>) \<and>
   \<not> motion_detected
       (analyze (DetectMotion_default\<lparr>motion_detected := True, latest_motion := 10\<rparr>) [] 16) \<and>
   motion_timeout (DetectMotion_default\<lparr>motion_detected := True, latest_motion := 10\<rparr>)
     < 16 - latest_motion (DetectMotion_default\<lparr>motion_detected := True, latest_motion := 10\<rparr>) \<and>
   found_motion DetectMotion_default (replicate 21 (40, 0)) \<and>
   list_all (\<lambda>ft. \<not> found_motion DetectMotion_default (fst ft) \<and>
       snd ft - 10 \<le> motion_timeout DetectMotion_default) [([], 12), ([], 15)] \<and>
   list_all (\<lambda>s'. motion_detected s' \<and> latest_motion s' = 10)
     (states (analyze DetectMotion_default (replicate 21 (40, 0)) 10) [([], 12), ([], 15)]) \<and>
   sorted (map snd ([(replicate 21 (40, 0), 10), ([], 12), (replicate 21 (40, 0), 13)]
     :: (frame \<times> real) list)) \<and>
   list_all (\<lambda>t. latest_motion DetectMotion_default \<le> t)
     (map snd ([(replicate 21 (40, 0), 10), ([], 12), (replicate 21 (40, 0), 13)]
     :: (frame \<times> real) list)) \<and>
   sorted (map latest_motion
     (states DetectMotion_default [(replicate 21 (40, 0), 10), ([], 12), (replicate 21 (40, 0), 13)]))"
proof -
  let ?s0 = "DetectMotion_default\<lparr>motion_detected := True, latest_motion := 10\<rparr>"
  let ?busy = "replicate 21 (40, 0) :: frame"
  let ?fs = "[([], 12), ([], 15)] :: (frame \<times> real) list"
  let ?gs = "[(?busy, 10), ([], 12), (?busy, 13)] :: (frame \<times> real) list"
  note T1 = analyze_hysteresis [of ?s0 "[]" 16 "[]" "[]" 0 "[]"]
  note T2 = analyze_hysteresis [of DetectMotion_default "[]" 0 ?busy ?fs 10 ?gs]
  have 1: "analyze ?s0 [] 16 = ?s0\<lparr>motion_detected := False\<rparr>"
    by (rule analyze_clear) (simp_all add: concrete_frames)
  have h1: "motion_detected ?s0 \<and> \<not> motion_detected (analyze ?s0 [] 16)"
    by (simp add: 1)
  from T1 h1 have c1: "motion_timeout ?s0 < 16 - latest_motion ?s0"
    by blast
  have h2: "found_motion DetectMotion_default ?busy \<and>
      (\<forall>ft \<in> set ?fs. \<not> found_motion DetectMotion_default (fst ft) \<and>
         snd ft - 10 \<le> motion_timeout DetectMotion_default)"
    by (simp add: concrete_frames)
  from T2 h2 have c2: "\<forall>s' \<in> set (states (analyze DetectMotion_default ?busy 10) ?fs).
      motion_detected s' \<and> latest_motion s' = 10"
    by blast
  have h3: "sorted (map snd ?gs) \<and> (\<forall>t \<in> set (map snd ?gs). latest_motion DetectMotion_default \<le> t)"
    by (simp add: default_fields)
  from T2 h3 have c3: "sorted (map latest_motion (states DetectMotion_default ?gs))"
    by blast
  from h1 c1 h2 c2 h3 c3 show ?thesis
    unfolding list_all_iff by blast
qed

subsection \<open>No trigger at the threshold\<close>

text \<open>
  C3. A frame whose count of vectors with magnitude strictly above \<open>motion_magnitude\<close> is
  at most \<open>motion_vector_count\<close> leaves an inactive classifier inactive, in particular
  when the count equals \<open>motion_vector_count\<close>. The three comparisons are strict: a
  magnitude equal to \<open>motion_magnitude\<close> is not counted, a count equal to
  \<open>motion_vector_count\<close> does not trigger, and an age equal to \<open>motion_timeout\<close> does
  not clear \<open>motion_detected\<close>.
\<close>

theorem analyze_below_threshold:
  "(count_exceeding (motion_magnitude s) (map magnitude a) \<le> motion_vector_count s \<and>
    \<not> motion_detected s \<longrightarrow> \<not> motion_detected (analyze s a ts)) \<and>
   (count_exceeding (motion_magnitude s) (map magnitude a) = motion_vector_count s \<and>
    \<not> motion_detected s \<longrightarrow> \<not> motion_detected (analyze s a ts)) \<and>
   (uint (magnitude v) = motion_magnitude s \<longrightarrow>
      count_exceeding (motion_magnitude s) (map magnitude (v # a)) =
      count_exceeding (motion_magnitude s) (map magnitude a)) \<and>
   (motion_detected s \<and> \<not> found_motion s a \<and> ts - latest_motion s = motion_timeout s \<longrightarrow>
      motion_detected (analyze s a ts))"
proof (intro conjI impI)
  assume "count_exceeding (motion_magnitude s) (map magnitude a) \<le> motion_vector_count s \<and>
    \<not> motion_detected s"
  then show "\<not> motion_detected (analyze s a ts)"
    by (intro analyze_quiet_inactive) (simp_all add: found_motion_def)
next
  assume "count_exceeding (motion_magnitude s) (map magnitude a) = motion_vector_count s \<and>
    \<not> motion_detected s"
  then show "\<not> motion_detected (analyze s a ts)"
    by (intro analyze_quiet_inactive) (simp_all add: found_motion_def)
next
  assume "uint (magnitude v) = motion_magnitude s"
  then show "count_exceeding (motion_magnitude s) (map magnitude (v # a)) =
      count_exceeding (motion_magnitude s) (map magnitude a)"
    by (simp add: count_exceeding_def)
next
  assume "motion_detected s \<and> \<not> found_motion s a \<and> ts - latest_motion s = motion_timeout s"
  then show "motion_detected (analyze s a ts)"
    by (simp add: analyze_coast)
qed

theorem analyze_below_threshold_witness:
  "count_exceeding (motion_magnitude DetectMotion_default) (map magnitude (replicate 20 (40, 0)))
     = motion_vector_count DetectMotion_default \<and>
   \<not> motion_detected DetectMotion_default \<and>
   \<not> motion_detected (analyze DetectMotion_default (replicate 20 (40, 0)) 100) \<and>
   uint (magnitude (30, 0)) = motion_magnitude DetectMotion_default \<and>
   count_exceeding (motion_magnitude DetectMotion_default)
     (map magnitude ((30, 0) # replicate 20 (40, 0))) = 20 \<and>
   \<not> found_motion (DetectMotion_default\<lparr>motion_detected := True, latest_motion := 95\<rparr>)
     (replicate 20 (40, 0)) \<and>
   100 - latest_motion (DetectMotion_default\<lparr>motion_detected := True, latest_motion := 95\<rparr>)
     = motion_timeout (DetectMotion_default\<lparr>motion_detected := True, latest_motion := 95\<rparr>) \<and>
   motion_detected
     (analyze (DetectMotion_default\<lparr>motion_detected := True, latest_motion := 95\<rparr>)
        (replicate 20 (40, 0)) 100)"
proof -
  let ?s1 = "DetectMotion_default\<lparr>motion_detected := True, latest_motion := 95\<rparr>"
  let ?a = "replicate 20 (40, 0) :: frame"
  note T0 = analyze_below_threshold [of DetectMotion_default ?a 100 "(30, 0)"]
  note T1 = analyze_below_threshold [of ?s1 ?a 100 "(30, 0)"]
  have c: "count_exceeding (motion_magnitude DetectMotion_default) (map magnitude ?a)
      = motion_vector_count DetectMotion_default"
    by (simp add: count_exceeding_replicate magnitude_40_0 default_fields)
  have i: "\<not> motion_detected DetectMotion_default"
    by (simp add: default_fields)
  from T0 c i have r1: "\<not> motion_detected (analyze DetectMotion_default ?a 100)"
    by blast
  have m: "uint (magnitude (30, 0)) = motion_magnitude DetectMotion_default"
    by (simp add: magnitude_30_0 default_fields)
  from T0 m have "count_exceeding (motion_magnitude DetectMotion_default)
      (map magnitude ((30, 0) # ?a)) =
      count_exceeding (motion_magnitude DetectMotion_default) (map magnitude ?a)"
    by blast
  with c have r2: "count_exceeding (motion_magnitude DetectMotion_default)
      (map magnitude ((30, 0) # ?a)) = 20"
    by (simp only: default_fields)
  have h3: "motion_detected ?s1 \<and> \<not> found_motion ?s1 ?a \<and>
      100 - latest_motion ?s1 = motion_timeout ?s1"
    by (simp add: concrete_frames)
  from T1 h3 have r3: "motion_detected (analyze ?s1 ?a 100)"
    by blast
  from c i r1 m r2 h3 r3 show ?thesis
    by blast
qed

subsection \<open>The timestamp moves only on a trigger\<close>

text \<open>
  C10. A frame that does not trigger leaves \<open>latest_motion\<close> as it was, also on the call
  that clears \<open>motion_detected\<close>; \<open>latest_motion\<close> changes only in the triggering branch
  (where it becomes the clock reading); so after any run of frames none of which
  triggers, \<open>latest_motion\<close> is still the time of the last triggering frame.
\<close>

theorem analyze_keeps_timestamp:
  "(\<not> found_motion s a \<longrightarrow> latest_motion (analyze s a ts) = latest_motion s) \<and>
   (motion_detected s \<and> \<not> motion_detected (analyze s a ts) \<longrightarrow>
      latest_motion (analyze s a ts) = latest_motion s) \<and>
   (latest_motion (analyze s a ts) \<noteq> latest_motion s \<longrightarrow>
      found_motion s a \<and> latest_motion (analyze s a ts) = ts) \<and>
   ((\<forall>ft \<in> set fs. \<not> found_motion s (fst ft)) \<longrightarrow>
      latest_motion (run (analyze s a ts) fs) = latest_motion (analyze s a ts))"
proof -
  have q: "\<not> found_motion s a \<Longrightarrow> latest_motion (analyze s a ts) = latest_motion s"
    by (rule analyze_quiet_latest)
  have t: "found_motion s a \<Longrightarrow> latest_motion (analyze s a ts) = ts \<and> motion_detected (analyze s a ts)"
    by (simp add: analyze_trigger)
  have r: "\<forall>ft \<in> set fs. \<not> found_motion s (fst ft) \<Longrightarrow>
      latest_motion (run (analyze s a ts) fs) = latest_motion (analyze s a ts)"
    by (rule run_quiet_latest) simp
  from q t r show ?thesis by blast
qed

theorem analyze_keeps_timestamp_witness:
  "\<not> found_motion (DetectMotion_default\<lparr>motion_detected := True, latest_motion := 10\<rparr>) [] \<and>
   motion_detected (DetectMotion_default\<lparr>motion_detected := True, latest_motion := 10\<rparr>) \<and>
   \<not> motion_detected
     (analyze (DetectMotion_default\<lparr>motion_detected := True, latest_motion := 10\<rparr>) [] 16) \<and>
   latest_motion
     (analyze (DetectMotion_default\<lparr>motion_detected := True, latest_motion := 10\<rparr>) [] 16) = 10 \<and>
   latest_motion (analyze DetectMotion_default (replicate 21 (40, 0)) 7) \<noteq>
     latest_motion DetectMotion_default \<and>
   found_motion DetectMotion_default (replicate 21 (40, 0)) \<and>
   list_all (\<lambda>ft. \<not> found_motion DetectMotion_default (fst ft)) [([], 9), ([], 13 :: real)] \<and>
   latest_motion (run (analyze DetectMotion_default (replicate 21 (40, 0)) 7) [([], 9), ([], 13)]) = 7"
proof -
  let ?s0 = "DetectMotion_default\<lparr>motion_detected := True, latest_motion := 10\<rparr>"
  let ?busy = "replicate 21 (40, 0) :: frame"
  let ?fs = "[([], 9), ([], 13)] :: (frame \<times> real) list"
  note T0 = analyze_keeps_timestamp [of ?s0 "[]" 16 "[]"]
  note T1 = analyze_keeps_timestamp [of DetectMotion_default ?busy 7 ?fs]
  have h0: "\<not> found_motion ?s0 []" "motion_detected ?s0"
    by (simp_all add: concrete_frames)
  have 1: "analyze ?s0 [] 16 = ?s0\<lparr>motion_detected := False\<rparr>"
    by (rule analyze_clear) (simp_all add: concrete_frames)
  have h1: "\<not> motion_detected (analyze ?s0 [] 16)"
    by (simp add: 1)
  from T0 h0 have "latest_motion (analyze ?s0 [] 16) = latest_motion ?s0"
    by blast
  then have r0: "latest_motion (analyze ?s0 [] 16) = 10"
    by simp
  have 2: "analyze DetectMotion_default ?busy 7
      = DetectMotion_default\<lparr>latest_motion := 7, motion_detected := True\<rparr>"
    by (rule analyze_trigger) (simp add: concrete_frames)
  have h2: "latest_motion (analyze DetectMotion_default ?busy 7) \<noteq> latest_motion DetectMotion_default"
    by (simp add: 2 default_fields)
  from T1 h2 have r2: "found_motion DetectMotion_default ?busy"
    by blast
  have h3: "\<forall>ft \<in> set ?fs. \<not> found_motion DetectMotion_default (fst ft)"
    by (simp add: concrete_frames)
  from T1 h3 have "latest_motion (run (analyze DetectMotion_default ?busy 7) ?fs)
      = latest_motion (analyze DetectMotion_default ?busy 7)"
    by blast
  then have r3: "latest_motion (run (analyze DetectMotion_default ?busy 7) ?fs) = 7"
    by (simp add: 2)
  from h0 h1 r0 h2 r2 h3 r3 show ?thesis
    unfolding list_all_iff by blast
qed

section \<open>Properties of the file helpers\<close>

lemma length_zero_pad: "w \<le> length (zero_pad w n)"
  by (simp add: zero_pad_def)

lemma strftime_stamp_not_after: "strftime_stamp d \<noteq> ''after''"
proof
  assume "strftime_stamp d = ''after''"
  then have "length (strftime_stamp d) = 5" by simp
  moreover have "4 \<le> length (zero_pad 4 (year d))" "2 \<le> length (zero_pad 2 (month d))"
    by (rule length_zero_pad)+
  ultimately show False by (simp add: strftime_stamp_def)
qed

subsection \<open>Assembly\<close>

text \<open>
  C5. When the pre-roll file \<^verbatim>\<open>{ts}.h264\<close> and \<^verbatim>\<open>after.h264\<close> both exist (and are two
  files: \<open>ts\<close> is a time stamp, never \<^verbatim>\<open>after\<close>, see \<open>strftime_stamp_not_after\<close>),
  \<^verbatim>\<open>concat_vids\<close> raises nothing, the pre-roll file afterwards holds its former bytes
  followed by the bytes of \<^verbatim>\<open>after.h264\<close>, so its length is the sum of the two lengths,
  \<^verbatim>\<open>after.h264\<close> no longer exists, and no other file changes.
\<close>

theorem concat_vids_appends:
  "fs (stamp @ ''.h264'') = Some pre \<Longrightarrow> fs ''after.h264'' = Some aft \<Longrightarrow> stamp \<noteq> ''after'' \<Longrightarrow>
   snd (concat_vids stamp fs) = None \<and>
   fst (concat_vids stamp fs) (stamp @ ''.h264'') = Some (pre @ aft) \<and>
   length (pre @ aft) = length pre + length aft \<and>
   fst (concat_vids stamp fs) ''after.h264'' = None \<and>
   (\<forall>p. p \<noteq> stamp @ ''.h264'' \<and> p \<noteq> ''after.h264'' \<longrightarrow> fst (concat_vids stamp fs) p = fs p)"
  by (simp add: concat_vids_def)

theorem concat_vids_appends_witness:
  "fst (concat_vids ''2024-01-01-120003''
          [''2024-01-01-120003.h264'' \<mapsto> [1, 2, 3], ''after.h264'' \<mapsto> [4, 5], ''x.jpg'' \<mapsto> [9]])
     ''2024-01-01-120003.h264'' = Some [1, 2, 3, 4, 5] \<and>
   fst (concat_vids ''2024-01-01-120003''
          [''2024-01-01-120003.h264'' \<mapsto> [1, 2, 3], ''after.h264'' \<mapsto> [4, 5], ''x.jpg'' \<mapsto> [9]])
     ''after.h264'' = None \<and>
   fst (concat_vids ''2024-01-01-120003''
          [''2024-01-01-120003.h264'' \<mapsto> [1, 2, 3], ''after.h264'' \<mapsto> [4, 5], ''x.jpg'' \<mapsto> [9]])
     ''x.jpg'' = Some [9] \<and>
   snd (concat_vids ''2024-01-01-120003''
          [''2024-01-01-120003.h264'' \<mapsto> [1, 2, 3], ''after.h264'' \<mapsto> [4, 5], ''x.jpg'' \<mapsto> [9]])
     = None"
  using concat_vids_appends [of
      "[''2024-01-01-120003.h264'' \<mapsto> [1, 2, 3], ''after.h264'' \<mapsto> [4, 5], ''x.jpg'' \<mapsto> [9]]"
      "''2024-01-01-120003''" "[1, 2, 3]" "[4, 5]"]
  by simp

section \<open>Properties of the control loop\<close>

lemma deliver_fields [simp]:
  "calls (deliver sl st) = calls st"
  "img_counter (deliver sl st) = img_counter st"
  "ts_local (deliver sl st) = ts_local st"
  "recording_to (deliver sl st) = recording_to st"
  "motion_output (deliver sl st) = run (motion_output st) (analysed sl)"
  by (simp_all add: deliver_def record_video_def Let_def split: target.splits option.splits)

lemma deliver_plain:
  "recorded sl = [] \<Longrightarrow> unlinked sl = [] \<Longrightarrow>
   deliver sl st = st\<lparr>motion_output := run (motion_output st) (analysed sl)\<rparr>"
  by (auto simp: deliver_def record_video_def fun_upd_idem split: target.splits option.splits)

lemma deliver_calls_update:
  "deliver sl (st\<lparr>calls := c\<rparr>) = (deliver sl st)\<lparr>calls := c\<rparr>"
  by (simp add: deliver_def record_video_def Let_def split: target.splits option.splits)

lemma slice_fields [simp]:
  "analysed (idle_slice t d) = []" "recorded (idle_slice t d) = []"
  "unlinked (idle_slice t d) = []" "raised (idle_slice t d) = None"
  "time_time (idle_slice t d) = t" "datetime_now (idle_slice t d) = d"
  "analysed (motion_slice t d) = [(busy, t)]" "recorded (motion_slice t d) = []"
  "unlinked (motion_slice t d) = []" "raised (motion_slice t d) = None"
  "time_time (motion_slice t d) = t" "datetime_now (motion_slice t d) = d"
  "analysed (still_slice t d) = [([], t)]" "recorded (still_slice t d) = []"
  "unlinked (still_slice t d) = []" "raised (still_slice t d) = None"
  "time_time (still_slice t d) = t" "datetime_now (still_slice t d) = d"
  by (simp_all add: motion_slice_def still_slice_def idle_slice_def)

lemma found_motion_sample [simp]:
  "motion_magnitude s = 30 \<Longrightarrow> motion_vector_count s = 20 \<Longrightarrow> found_motion s busy"
  "motion_vector_count s = 20 \<Longrightarrow> \<not> found_motion s []"
  by (simp_all add: busy_def found_motion_busy found_motion_empty)

lemma strftime_stamp_clock:
  "strftime_stamp (clock 3) = ''2024-01-01-120003''"
  "strftime_stamp (clock 7) = ''2024-01-01-120007''"
  by code_simp+

lemmas run_main =
  main_def initial_state_def step_def loop_top_def in_episode_def main_defaults_def Let_def
  deliver_plain analyze_def DetectMotion_default_def DetectMotion_init_def
  write_video_def concat_vids_def convert_video_def gen_img_name_def strftime_stamp_clock

subsection \<open>Conversion before any episode\<close>

text \<open>
  C7. The program is started as \<^verbatim>\<open>main(flip=True, convert_vids=True)\<close>. When no frame
  triggers during the first pass of the loop, the quiet-period check holds (the clock
  is more than one second past the stored \<open>latest_motion\<close>, which is still 0) and
  \<^verbatim>\<open>convert_video(ts)\<close> is reached with \<^verbatim>\<open>ts\<close> never assigned: \<^verbatim>\<open>UnboundLocalError\<close> leaves
  \<^verbatim>\<open>main\<close>, whatever the transcoder and the files on disk are. The call is not a no-op.
\<close>

theorem main_convert_before_episode:
  "snd (main (main_defaults\<lparr>flip := True, convert_vids := 1\<rparr>) avconv fs0
          (idle_slice 1700000002 (clock 2)) (idle_slice 1700000003 (clock 3) # rest))
     = Propagated (UnboundLocalError ''ts'') \<and>
   calls (fst (main (main_defaults\<lparr>flip := True, convert_vids := 1\<rparr>) avconv fs0
          (idle_slice 1700000002 (clock 2)) (idle_slice 1700000003 (clock 3) # rest)))
     = [Rotation 180, StartRecording Stream 1, StartRecording (File ''/dev/null'') 2,
        WaitRecording 2 1, WaitRecording 1 1, WaitRecording 0 2,
        StopRecording 1, StopRecording 2]"
  by (simp add: run_main)

subsection \<open>Conversion and the exit code\<close>

text \<open>
  C6, as the claim states it, fails on its last part: after a failed conversion the
  loop calls \<^verbatim>\<open>convert_video\<close> again on the next idle pass. Here the transcoder always
  exits with code 1; one episode is recorded, and the two idle passes that follow both
  run the conversion of the same file.
\<close>

theorem convert_retried_counterexample:
  "calls (fst (main (main_defaults\<lparr>convert_vids := 1\<rparr>) (\<lambda>cmd fs. Exited 1 fs) Map.empty
          (idle_slice 2 (clock 2))
          [motion_slice 10 (clock 3), still_slice 16 (clock 4),
           idle_slice 20 (clock 5), idle_slice 21 (clock 6)]))
     = [StartRecording Stream 1, StartRecording (File ''/dev/null'') 2, WaitRecording 2 1,
        WaitRecording 1 1, WaitRecording 0 2,
        SplitRecording (File ''after.h264''), WriteVideo ''2024-01-01-120003'',
        SplitRecording Stream, ConcatVids ''2024-01-01-120003'',
        WaitRecording 1 1, WaitRecording 0 2, ConvertVideo ''2024-01-01-120003'',
        WaitRecording 1 1, WaitRecording 0 2, ConvertVideo ''2024-01-01-120003'']"
  by (simp add: run_main)

text \<open>
  C6, amended. Let the transcoder exit with code \<open>rc\<close> and leave the files \<open>fs1\<close>. Then
  \<^verbatim>\<open>convert_video\<close> removes the source \<^verbatim>\<open>{ts}.h264\<close> from \<open>fs1\<close> exactly when \<open>rc = 0\<close>, and does
  nothing else to the files; when \<open>rc \<noteq> 0\<close> it raises nothing and returns \<open>fs1\<close> as it
  is, so the source is as the transcoder left it and the output \<^verbatim>\<open>{ts}.mp4\<close> is absent
  when the transcoder left it absent. In the loop, a pass that sees no motion, has the
  quiet condition and a failing transcoder ends with the call of \<^verbatim>\<open>convert_video\<close> and
  goes on to the next pass (where the same holds again).
\<close>

theorem convert_video_exit_code:
  "avconv (convert_cmd stamp) fs = Exited rc fs1 \<Longrightarrow>
   fst (convert_video avconv stamp fs) =
     (if rc = 0 then fs1(stamp @ ''.h264'' := None) else fs1) \<and>
   (rc \<noteq> 0 \<longrightarrow>
      snd (convert_video avconv stamp fs) = None \<and>
      fst (convert_video avconv stamp fs) (stamp @ ''.h264'') = fs1 (stamp @ ''.h264'') \<and>
      fst (convert_video avconv stamp fs) (stamp @ ''.mp4'') = fs1 (stamp @ ''.mp4'') \<and>
      (ts_local st = Some stamp \<and> files (deliver sl st) = fs \<and> raised sl = None \<and>
       \<not> motion_detected (motion_output (deliver sl st)) \<and> convert_vids cfg \<noteq> 0 \<and>
       convert_vids cfg < time_time sl - latest_motion (motion_output (deliver sl st)) \<longrightarrow>
         snd (loop_top cfg avconv sl st) = Continue LoopTop \<and>
         calls (fst (loop_top cfg avconv sl st)) =
           calls st @ [WaitRecording 1 1, WaitRecording 0 2, ConvertVideo stamp] \<and>
         files (fst (loop_top cfg avconv sl st)) = fs1 \<and>
         ts_local (fst (loop_top cfg avconv sl st)) = Some stamp))"
proof -
  assume av: "avconv (convert_cmd stamp) fs = Exited rc fs1"
  have files: "fst (convert_video avconv stamp fs) =
      (if rc = 0 then fs1(stamp @ ''.h264'' := None) else fs1)"
    using av by (auto simp: convert_video_def Let_def fun_upd_idem split: option.splits)
  have quiet: "snd (convert_video avconv stamp fs) = None" if "rc \<noteq> 0"
    using av that by (simp add: convert_video_def)
  have pass: "snd (loop_top cfg avconv sl st) = Continue LoopTop \<and>
      calls (fst (loop_top cfg avconv sl st)) =
        calls st @ [WaitRecording 1 1, WaitRecording 0 2, ConvertVideo stamp] \<and>
      files (fst (loop_top cfg avconv sl st)) = fs1 \<and>
      ts_local (fst (loop_top cfg avconv sl st)) = Some stamp"
    if "rc \<noteq> 0" and h: "ts_local st = Some stamp \<and> files (deliver sl st) = fs \<and> raised sl = None \<and>
      \<not> motion_detected (motion_output (deliver sl st)) \<and> convert_vids cfg \<noteq> 0 \<and>
      convert_vids cfg < time_time sl - latest_motion (motion_output (deliver sl st))"
  proof -
    from av \<open>rc \<noteq> 0\<close> have cv: "convert_video avconv stamp fs = (fs1, None)"
      by (simp add: convert_video_def)
    from h cv show ?thesis
      by (simp add: loop_top_def deliver_calls_update Let_def)
  qed
  from files quiet pass show ?thesis
    by (simp del: deliver_fields)
qed


theorem convert_video_exit_code_witness:
  "fst (convert_video (\<lambda>cmd fs. Exited 1 fs) ''2024-01-01-120003''
          [''2024-01-01-120003.h264'' \<mapsto> [1, 2, 3]]) ''2024-01-01-120003.h264'' = Some [1, 2, 3] \<and>
   fst (convert_video (\<lambda>cmd fs. Exited 1 fs) ''2024-01-01-120003''
          [''2024-01-01-120003.h264'' \<mapsto> [1, 2, 3]]) ''2024-01-01-120003.mp4'' = None \<and>
   snd (convert_video (\<lambda>cmd fs. Exited 1 fs) ''2024-01-01-120003''
          [''2024-01-01-120003.h264'' \<mapsto> [1, 2, 3]]) = None \<and>
   fst (convert_video (\<lambda>cmd fs. Exited 0 (fs(''2024-01-01-120003.mp4'' \<mapsto> [7]))) ''2024-01-01-120003''
          [''2024-01-01-120003.h264'' \<mapsto> [1, 2, 3]]) ''2024-01-01-120003.h264'' = None \<and>
   snd (loop_top (main_defaults\<lparr>convert_vids := 1\<rparr>) (\<lambda>cmd fs. Exited 1 fs) (idle_slice 20 (clock 5))
          \<lparr>motion_output = DetectMotion_default\<lparr>latest_motion := 10\<rparr>,
           files = [''2024-01-01-120003.h264'' \<mapsto> [1, 2, 3]], stream = [],
           recording_to = Stream, img_counter = 0, ts_local = Some ''2024-01-01-120003'',
           calls = []\<rparr>) = Continue LoopTop \<and>
   calls (fst (loop_top (main_defaults\<lparr>convert_vids := 1\<rparr>) (\<lambda>cmd fs. Exited 1 fs)
          (idle_slice 20 (clock 5))
          \<lparr>motion_output = DetectMotion_default\<lparr>latest_motion := 10\<rparr>,
           files = [''2024-01-01-120003.h264'' \<mapsto> [1, 2, 3]], stream = [],
           recording_to = Stream, img_counter = 0, ts_local = Some ''2024-01-01-120003'',
           calls = []\<rparr>))
     = [WaitRecording 1 1, WaitRecording 0 2, ConvertVideo ''2024-01-01-120003'']"
proof -
  let ?fs = "[''2024-01-01-120003.h264'' \<mapsto> [1, 2, 3]] :: filesystem"
  let ?st = "\<lparr>motion_output = DetectMotion_default\<lparr>latest_motion := 10\<rparr>,
           files = ?fs, stream = [],
           recording_to = Stream, img_counter = 0, ts_local = Some ''2024-01-01-120003'',
           calls = []\<rparr>"
  let ?cfg = "main_defaults\<lparr>convert_vids := 1\<rparr>"
  let ?sl = "idle_slice 20 (clock 5)"
  have d: "deliver ?sl ?st = ?st"
    by (simp add: deliver_plain)
  have h: "ts_local ?st = Some ''2024-01-01-120003'' \<and> files (deliver ?sl ?st) = ?fs \<and>
      raised ?sl = None \<and> \<not> motion_detected (motion_output (deliver ?sl ?st)) \<and>
      convert_vids ?cfg \<noteq> 0 \<and>
      convert_vids ?cfg < time_time ?sl - latest_motion (motion_output (deliver ?sl ?st))"
    unfolding d by (simp add: default_fields main_defaults_def)
  have "(1::int) \<noteq> 0" by simp
  with h
    convert_video_exit_code [of "\<lambda>cmd fs. Exited 1 fs" "''2024-01-01-120003''" ?fs 1 ?fs ?st ?sl ?cfg]
  have 1: "snd (convert_video (\<lambda>cmd fs. Exited 1 fs) ''2024-01-01-120003'' ?fs) = None"
    "fst (convert_video (\<lambda>cmd fs. Exited 1 fs) ''2024-01-01-120003'' ?fs)
       (''2024-01-01-120003'' @ ''.h264'') = ?fs (''2024-01-01-120003'' @ ''.h264'')"
    "fst (convert_video (\<lambda>cmd fs. Exited 1 fs) ''2024-01-01-120003'' ?fs)
       (''2024-01-01-120003'' @ ''.mp4'') = ?fs (''2024-01-01-120003'' @ ''.mp4'')"
    "snd (loop_top ?cfg (\<lambda>cmd fs. Exited 1 fs) ?sl ?st) = Continue LoopTop"
    "calls (fst (loop_top ?cfg (\<lambda>cmd fs. Exited 1 fs) ?sl ?st)) =
       calls ?st @ [WaitRecording 1 1, WaitRecording 0 2, ConvertVideo ''2024-01-01-120003'']"
    by blast+
  from convert_video_exit_code [of "\<lambda>cmd fs. Exited 0 (fs(''2024-01-01-120003.mp4'' \<mapsto> [7]))"
      "''2024-01-01-120003''" ?fs 0 "?fs(''2024-01-01-120003.mp4'' \<mapsto> [7])" ?st ?sl ?cfg]
  have 2: "fst (convert_video (\<lambda>cmd fs. Exited 0 (fs(''2024-01-01-120003.mp4'' \<mapsto> [7])))
      ''2024-01-01-120003'' ?fs) ''2024-01-01-120003.h264'' = None"
    by simp
  from 1 2 show ?thesis
    by simp
qed

lemma stills_append [simp]: "stills (xs @ ys) = stills xs @ stills ys"
  by (induction xs rule: stills.induct) simp_all

lemma strftime_stamp_clock_more:
  "strftime_stamp (clock 4) = ''2024-01-01-120004''"
  "strftime_stamp (clock 5) = ''2024-01-01-120005''"
  "strftime_stamp (clock 8) = ''2024-01-01-120008''"
  by code_simp+

lemma zero_pad_3:
  "zero_pad 3 (Suc 0) = ''001''"
  "zero_pad 3 (Suc (Suc 0)) = ''002''"
  "zero_pad 3 (Suc (Suc (Suc 0))) = ''003''"
  by code_simp+

subsection \<open>Numbering of the still images\<close>

text \<open>
  C8, as the claim states it, fails: the generator is created once, before the loop,
  and its counter is never reset. In this run the first episode captures two stills and
  the second episode's first still carries counter 3.
\<close>

theorem still_counter_counterexample:
  "calls (fst (main main_defaults (\<lambda>cmd fs. Exited 0 fs) Map.empty (idle_slice 2 (clock 2))
          [motion_slice 10 (clock 3), idle_slice 11 (clock 4), idle_slice 12 (clock 5),
           still_slice 16 (clock 6), motion_slice 20 (clock 7), idle_slice 21 (clock 8)]))
     = [StartRecording Stream 1, StartRecording (File ''/dev/null'') 2, WaitRecording 2 1,
        WaitRecording 1 1, WaitRecording 0 2,
        SplitRecording (File ''after.h264''), WriteVideo ''2024-01-01-120003'',
        Capture ''2024-01-01-120004-001.jpg'', WaitRecording (1 / 4) 1,
        Capture ''2024-01-01-120005-002.jpg'', WaitRecording (1 / 4) 1,
        SplitRecording Stream, ConcatVids ''2024-01-01-120003'',
        WaitRecording 1 1, WaitRecording 0 2,
        SplitRecording (File ''after.h264''), WriteVideo ''2024-01-01-120007'',
        Capture ''2024-01-01-120008-003.jpg'', WaitRecording (1 / 4) 1]"
  by (simp add: run_main strftime_stamp_clock_more zero_pad_3)

lemma loop_top_stills:
  "stills (calls (fst (loop_top cfg avconv sl st))) = stills (calls st) \<and>
   img_counter (fst (loop_top cfg avconv sl st)) = img_counter st"
  by (simp add: loop_top_def deliver_calls_update Let_def write_video_def
      split: option.splits prod.splits)

lemma in_episode_stills:
  "(stills (calls (fst (in_episode cfg sl st))) = stills (calls st) \<and>
    img_counter (fst (in_episode cfg sl st)) = img_counter st) \<or>
   (stills (calls (fst (in_episode cfg sl st))) =
      stills (calls st) @ [fst (gen_img_name (datetime_now sl) (img_counter st))] \<and>
    img_counter (fst (in_episode cfg sl st)) = Suc (img_counter st))"
  by (simp add: in_episode_def Let_def gen_img_name_def split: option.splits prod.splits)

lemma step_numbered:
  assumes "length (stills (calls st)) = img_counter st"
    and "\<forall>i < img_counter st. \<exists>d. stills (calls st) ! i = fst (gen_img_name d i)"
  shows "length (stills (calls (fst (step cfg avconv p sl st)))) =
      img_counter (fst (step cfg avconv p sl st)) \<and>
    (\<forall>i < img_counter (fst (step cfg avconv p sl st)).
       \<exists>d. stills (calls (fst (step cfg avconv p sl st))) ! i = fst (gen_img_name d i))"
proof (cases p)
  case LoopTop
  with assms loop_top_stills [of cfg avconv sl st] show ?thesis
    by (simp add: step_def)
next
  case InEpisode
  from in_episode_stills [of cfg sl st] show ?thesis
  proof
    assume "stills (calls (fst (in_episode cfg sl st))) = stills (calls st) \<and>
      img_counter (fst (in_episode cfg sl st)) = img_counter st"
    with assms InEpisode show ?thesis
      by (simp add: step_def)
  next
    assume a: "stills (calls (fst (in_episode cfg sl st))) =
        stills (calls st) @ [fst (gen_img_name (datetime_now sl) (img_counter st))] \<and>
      img_counter (fst (in_episode cfg sl st)) = Suc (img_counter st)"
    have "\<exists>d. (stills (calls st) @ [fst (gen_img_name (datetime_now sl) (img_counter st))]) ! i
        = fst (gen_img_name d i)" if "i < Suc (img_counter st)" for i
    proof (cases "i < img_counter st")
      case True
      with assms show ?thesis by (simp add: nth_append)
    next
      case False
      with that have "i = img_counter st" by simp
      with assms(1) show ?thesis by (auto simp: nth_append)
    qed
    with a assms(1) InEpisode show ?thesis
      by (simp add: step_def)
  qed
qed

lemma run_loop_numbered:
  "length (stills (calls st)) = img_counter st \<Longrightarrow>
   \<forall>i < img_counter st. \<exists>d. stills (calls st) ! i = fst (gen_img_name d i) \<Longrightarrow>
   length (stills (calls (fst (run_loop cfg avconv p script st)))) =
     img_counter (fst (run_loop cfg avconv p script st)) \<and>
   (\<forall>i < img_counter (fst (run_loop cfg avconv p script st)).
      \<exists>d. stills (calls (fst (run_loop cfg avconv p script st))) ! i = fst (gen_img_name d i))"
proof (induction script arbitrary: p st)
  case Nil
  then show ?case by simp
next
  case (Cons sl script)
  obtain st' c where s: "step cfg avconv p sl st = (st', c)"
    by (cases "step cfg avconv p sl st")
  from step_numbered [OF Cons.prems, of cfg avconv p sl] s
  have inv: "length (stills (calls st')) = img_counter st'"
    "\<forall>i < img_counter st'. \<exists>d. stills (calls st') ! i = fst (gen_img_name d i)"
    by simp_all
  show ?case
  proof (cases c)
    case (Continue p')
    with s Cons.IH [OF inv, of p'] show ?thesis by simp
  next
    case (Raise e)
    with s inv show ?thesis by simp
  qed
qed

text \<open>
  C8, amended. Still images are named \<^verbatim>\<open><YYYY-MM-DD-HHMMSS>-<counter:03d>.jpg\<close>, and
  the counter runs over the whole process: the first still captured after the start
  carries 1 and every later still, in whichever episode, carries one more than the
  still before it.
\<close>

theorem still_counter_never_reset:
  "fst (gen_img_name d k) = strftime_stamp d @ ''-'' @ zero_pad 3 (k + 1) @ ''.jpg'' \<and>
   3 \<le> length (zero_pad 3 (k + 1)) \<and>
   (\<forall>i < length (stills (calls (fst (main cfg avconv fs0 warmup script)))).
      \<exists>d'. stills (calls (fst (main cfg avconv fs0 warmup script))) ! i =
        strftime_stamp d' @ ''-'' @ zero_pad 3 (i + 1) @ ''.jpg'')"
proof -
  let ?st1 = "deliver warmup (initial_state cfg fs0)"
  let ?st1' = "?st1\<lparr>motion_output := (motion_output ?st1)\<lparr>motion_detected := False\<rparr>\<rparr>"
  have g: "fst (gen_img_name d' k') = strftime_stamp d' @ ''-'' @ zero_pad 3 (k' + 1) @ ''.jpg''"
    for d' k'
    by (simp add: gen_img_name_def Let_def)
  have init: "stills (calls (initial_state cfg fs0)) = []" "img_counter (initial_state cfg fs0) = 0"
    by (simp_all add: initial_state_def)
  have loop: "length (stills (calls (fst (run_loop cfg avconv LoopTop script ?st1')))) =
      img_counter (fst (run_loop cfg avconv LoopTop script ?st1')) \<and>
    (\<forall>i < img_counter (fst (run_loop cfg avconv LoopTop script ?st1')).
       \<exists>d. stills (calls (fst (run_loop cfg avconv LoopTop script ?st1'))) ! i
         = fst (gen_img_name d i))"
    by (rule run_loop_numbered) (simp_all add: init)
  have m: "stills (calls (fst (main cfg avconv fs0 warmup script))) =
      (case raised warmup of
         Some e \<Rightarrow> []
       | None \<Rightarrow> stills (calls (fst (run_loop cfg avconv LoopTop script ?st1'))))"
    by (simp add: main_def Let_def init split: option.splits prod.splits control.splits)
  have "\<exists>d'. stills (calls (fst (main cfg avconv fs0 warmup script))) ! i =
      strftime_stamp d' @ ''-'' @ zero_pad 3 (i + 1) @ ''.jpg''"
    if "i < length (stills (calls (fst (main cfg avconv fs0 warmup script))))" for i
  proof (cases "raised warmup")
    case None
    with that m loop show ?thesis by (simp add: g)
  next
    case (Some e)
    with that m show ?thesis by simp
  qed
  then show ?thesis
    using g [of d k] length_zero_pad [of 3 "k + 1"] by blast
qed


theorem still_counter_never_reset_witness:
  "length (stills (calls (fst (main main_defaults (\<lambda>cmd fs. Exited 0 fs) Map.empty
      (idle_slice 2 (clock 2))
      [motion_slice 10 (clock 3), idle_slice 11 (clock 4), idle_slice 12 (clock 5)])))) = 2 \<and>
   (\<exists>d'. stills (calls (fst (main main_defaults (\<lambda>cmd fs. Exited 0 fs) Map.empty
      (idle_slice 2 (clock 2))
      [motion_slice 10 (clock 3), idle_slice 11 (clock 4), idle_slice 12 (clock 5)]))) ! 1 =
      strftime_stamp d' @ ''-'' @ zero_pad 3 (1 + 1) @ ''.jpg'')"
proof -
  let ?names = "stills (calls (fst (main main_defaults (\<lambda>cmd fs. Exited 0 fs) Map.empty
      (idle_slice 2 (clock 2))
      [motion_slice 10 (clock 3), idle_slice 11 (clock 4), idle_slice 12 (clock 5)])))"
  have len: "length ?names = 2"
    by (simp add: run_main)
  from still_counter_never_reset [of "clock 0" 0 main_defaults "\<lambda>cmd fs. Exited 0 fs" Map.empty
      "idle_slice 2 (clock 2)"
      "[motion_slice 10 (clock 3), idle_slice 11 (clock 4), idle_slice 12 (clock 5)]"]
  have "\<forall>i < length ?names. \<exists>d'. ?names ! i = strftime_stamp d' @ ''-'' @ zero_pad 3 (i + 1) @ ''.jpg''"
    by blast
  with len have "\<exists>d'. ?names ! 1 = strftime_stamp d' @ ''-'' @ zero_pad 3 (1 + 1) @ ''.jpg''"
    by (metis one_less_numeral_iff semiring_norm(76))
  with len show ?thesis by blast
qed

subsection \<open>Warm-up\<close>

lemma found_motion_cong:
  "motion_magnitude s = motion_magnitude s' \<Longrightarrow> motion_vector_count s = motion_vector_count s' \<Longrightarrow>
   found_motion s a = found_motion s' a"
  by (simp add: found_motion_def)






subsection \<open>Errors and the loop\<close>

text \<open>
  C4, as the claim states it, fails: nothing but \<^verbatim>\<open>KeyboardInterrupt\<close> is caught. In this
  run an episode opens, \<^verbatim>\<open>after.h264\<close> is removed by another process while the episode
  is recorded, and \<^verbatim>\<open>concat_vids\<close> raises when the episode closes: the error leaves
  \<^verbatim>\<open>main\<close>, and the motion that follows is never looked at.
\<close>

theorem episode_error_counterexample:
  "snd (main main_defaults (\<lambda>cmd fs. Exited 0 fs) Map.empty (idle_slice 2 (clock 2))
          [motion_slice 10 (clock 3),
           (still_slice 16 (clock 4))\<lparr>unlinked := [''after.h264'']\<rparr>,
           motion_slice 20 (clock 7), idle_slice 21 (clock 8)])
     = Propagated (FileNotFoundError ''after.h264'') \<and>
   calls (fst (main main_defaults (\<lambda>cmd fs. Exited 0 fs) Map.empty (idle_slice 2 (clock 2))
          [motion_slice 10 (clock 3),
           (still_slice 16 (clock 4))\<lparr>unlinked := [''after.h264'']\<rparr>,
           motion_slice 20 (clock 7), idle_slice 21 (clock 8)]))
     = [StartRecording Stream 1, StartRecording (File ''/dev/null'') 2, WaitRecording 2 1,
        WaitRecording 1 1, WaitRecording 0 2,
        SplitRecording (File ''after.h264''), WriteVideo ''2024-01-01-120003'',
        SplitRecording Stream, ConcatVids ''2024-01-01-120003'',
        StopRecording 1, StopRecording 2]"
  by (simp add: run_main deliver_def record_video_def still_slice_def idle_slice_def)

lemma run_loop_raise_append:
  "run_loop cfg avconv p script st = (st', Raise e) \<Longrightarrow>
   run_loop cfg avconv p (script @ later) st = (st', Raise e)"
proof (induction script arbitrary: p st)
  case Nil
  then show ?case by simp
next
  case (Cons sl script)
  obtain st1 c where s: "step cfg avconv p sl st = (st1, c)"
    by (cases "step cfg avconv p sl st")
  show ?case
  proof (cases c)
    case (Continue p')
    with s Cons.prems have "run_loop cfg avconv p' script st1 = (st', Raise e)" by simp
    from Cons.IH [OF this] s Continue show ?thesis by simp
  next
    case (Raise e')
    with s Cons.prems show ?thesis by simp
  qed
qed

lemma main_stopped_append:
  assumes "snd (main cfg avconv fs0 warmup script) = Propagated e \<or>
    snd (main cfg avconv fs0 warmup script) = Returned"
  shows "main cfg avconv fs0 warmup (script @ later) = main cfg avconv fs0 warmup script \<and>
    (\<exists>cs. calls (fst (main cfg avconv fs0 warmup script)) = cs @ [StopRecording 1, StopRecording 2])"
proof (cases "raised warmup")
  case (Some e')
  then show ?thesis by (simp add: main_def Let_def)
next
  case None
  let ?st1 = "deliver warmup (initial_state cfg fs0)"
  let ?st1' = "?st1\<lparr>motion_output := (motion_output ?st1)\<lparr>motion_detected := False\<rparr>\<rparr>"
  obtain st2 c where r: "run_loop cfg avconv LoopTop script ?st1' = (st2, c)"
    by (cases "run_loop cfg avconv LoopTop script ?st1'")
  from assms None r obtain e' where c: "c = Raise e'"
    by (cases c) (auto simp: main_def Let_def)
  from r c have "run_loop cfg avconv LoopTop (script @ later) ?st1' = (st2, Raise e')"
    by (simp add: run_loop_raise_append)
  with None r c show ?thesis
    by (simp add: main_def Let_def)
qed

lemma run_loop_append:
  "run_loop cfg avconv p (xs @ ys) st =
     (case run_loop cfg avconv p xs st of
        (st', Continue p') \<Rightarrow> run_loop cfg avconv p' ys st'
      | (st', Raise e) \<Rightarrow> (st', Raise e))"
proof (induction xs arbitrary: p st)
  case Nil
  show ?case by simp
next
  case (Cons sl xs)
  obtain st1 c where s: "step cfg avconv p sl st = (st1, c)"
    by (cases "step cfg avconv p sl st")
  show ?case
  proof (cases c)
    case (Continue p')
    with s Cons.IH [of p' st1] show ?thesis by simp
  next
    case (Raise e)
    with s show ?thesis by simp
  qed
qed

lemma main_running:
  assumes "main cfg avconv fs0 warmup pre = (st, Running p)"
  shows "raised warmup = None \<and>
    run_loop cfg avconv LoopTop pre
      ((deliver warmup (initial_state cfg fs0))
         \<lparr>motion_output :=
            (motion_output (deliver warmup (initial_state cfg fs0)))\<lparr>motion_detected := False\<rparr>\<rparr>)
      = (st, Continue p)"
proof (cases "raised warmup")
  case (Some e)
  with assms show ?thesis by (auto simp: main_def Let_def split: if_splits)
next
  case None
  let ?st1 = "deliver warmup (initial_state cfg fs0)"
  let ?st1' = "?st1\<lparr>motion_output := (motion_output ?st1)\<lparr>motion_detected := False\<rparr>\<rparr>"
  obtain st2 c where r: "run_loop cfg avconv LoopTop pre ?st1' = (st2, c)"
    by (cases "run_loop cfg avconv LoopTop pre ?st1'")
  show ?thesis
  proof (cases c)
    case (Continue p')
    with assms None r show ?thesis by (simp add: main_def Let_def)
  next
    case (Raise e)
    with assms None r show ?thesis by (auto simp: main_def Let_def split: if_splits)
  qed
qed

lemma step_error_leaves_main:
  assumes m: "main cfg avconv fs0 warmup pre = (st, Running p)"
    and s: "step cfg avconv p sl st = (st', Raise e)"
  shows "main cfg avconv fs0 warmup (pre @ sl # later) =
    (st'\<lparr>calls := calls st' @ [StopRecording 1, StopRecording 2]\<rparr>,
     if e = KeyboardInterrupt then Returned else Propagated e)"
proof -
  let ?st1 = "deliver warmup (initial_state cfg fs0)"
  let ?st1' = "?st1\<lparr>motion_output := (motion_output ?st1)\<lparr>motion_detected := False\<rparr>\<rparr>"
  from main_running [OF m] have w: "raised warmup = None"
    and r: "run_loop cfg avconv LoopTop pre ?st1' = (st, Continue p)"
    by simp_all
  from r s have "run_loop cfg avconv LoopTop (pre @ sl # later) ?st1' = (st', Raise e)"
    by (simp add: run_loop_append)
  with w show ?thesis
    by (simp add: main_def Let_def)
qed

lemma slice_error_raises:
  "raised sl = Some e \<Longrightarrow> snd (step cfg avconv p sl st) = Raise e"
  by (cases p) (simp_all add: step_def loop_top_def in_episode_def Let_def)

lemma concat_error_raises:
  assumes "raised sl = None" "\<not> motion_detected (motion_output (deliver sl st))"
    "ts_local st = Some stamp" "snd (concat_vids stamp (files (deliver sl st))) = Some e"
  shows "snd (step cfg avconv InEpisode sl st) = Raise e"
  using assms
  by (auto simp: step_def in_episode_def Let_def split: prod.splits)

lemma convert_error_raises:
  assumes "raised sl = None" "\<not> motion_detected (motion_output (deliver sl st))"
    "convert_vids cfg \<noteq> 0"
    "convert_vids cfg < time_time sl - latest_motion (motion_output (deliver sl st))"
    "ts_local st = Some stamp" "snd (convert_video avconv stamp (files (deliver sl st))) = Some e"
  shows "snd (step cfg avconv LoopTop sl st) = Raise e"
  using assms
  by (auto simp: step_def loop_top_def deliver_calls_update Let_def split: prod.splits)

lemma concat_vids_missing_after:
  "fs ''after.h264'' = None \<Longrightarrow> stamp \<noteq> ''after'' \<Longrightarrow>
   snd (concat_vids stamp fs) = Some (FileNotFoundError ''after.h264'')"
  by (simp add: concat_vids_def Let_def split: option.splits)

text \<open>
  C4, amended. An error raised while an episode is processed is not caught, and it
  ends the monitoring. Whenever the loop is running and the code of the next pass
  raises an error, \<^verbatim>\<open>main\<close> stops both recordings and ends with that error (it returns
  normally only for \<^verbatim>\<open>KeyboardInterrupt\<close>, the one exception it catches), whatever the
  environment does afterwards. The passes do raise: an exception delivered during the
  wait, an error of \<^verbatim>\<open>concat_vids\<close> when the episode closes (it raises
  \<^verbatim>\<open>FileNotFoundError\<close> when \<^verbatim>\<open>after.h264\<close> is missing) and an error of \<^verbatim>\<open>convert_video\<close>
  in the quiet-period branch all leave the pass. Conversely, when \<^verbatim>\<open>main\<close> has ended
  with an error, that error is not \<^verbatim>\<open>KeyboardInterrupt\<close>, the two \<^verbatim>\<open>stop_recording\<close> calls
  are its last calls, and the run is the same however the list of slices continues,
  so no later episode is monitored.
\<close>

theorem error_ends_monitoring:
  "(main cfg avconv fs0 warmup pre = (st, Running p) \<and>
    step cfg avconv p sl st = (st', Raise e) \<longrightarrow>
      main cfg avconv fs0 warmup (pre @ sl # later) =
        (st'\<lparr>calls := calls st' @ [StopRecording 1, StopRecording 2]\<rparr>,
         if e = KeyboardInterrupt then Returned else Propagated e)) \<and>
   (raised sl = Some e \<longrightarrow> snd (step cfg avconv p sl st) = Raise e) \<and>
   (raised sl = None \<and> \<not> motion_detected (motion_output (deliver sl st)) \<and>
    ts_local st = Some stamp \<and> snd (concat_vids stamp (files (deliver sl st))) = Some e \<longrightarrow>
      snd (step cfg avconv InEpisode sl st) = Raise e) \<and>
   (fs ''after.h264'' = None \<and> stamp \<noteq> ''after'' \<longrightarrow>
      snd (concat_vids stamp fs) = Some (FileNotFoundError ''after.h264'')) \<and>
   (raised sl = None \<and> \<not> motion_detected (motion_output (deliver sl st)) \<and>
    convert_vids cfg \<noteq> 0 \<and>
    convert_vids cfg < time_time sl - latest_motion (motion_output (deliver sl st)) \<and>
    ts_local st = Some stamp \<and>
    snd (convert_video avconv stamp (files (deliver sl st))) = Some e \<longrightarrow>
      snd (step cfg avconv LoopTop sl st) = Raise e) \<and>
   (snd (main cfg avconv fs0 warmup script) = Propagated e \<longrightarrow>
      e \<noteq> KeyboardInterrupt \<and>
      main cfg avconv fs0 warmup (script @ later) = main cfg avconv fs0 warmup script \<and>
      (\<exists>cs. calls (fst (main cfg avconv fs0 warmup script)) =
         cs @ [StopRecording 1, StopRecording 2])) \<and>
   (snd (main cfg avconv fs0 warmup script) = Returned \<longrightarrow>
      main cfg avconv fs0 warmup (script @ later) = main cfg avconv fs0 warmup script)"
proof (intro conjI impI)
  assume "main cfg avconv fs0 warmup pre = (st, Running p) \<and>
    step cfg avconv p sl st = (st', Raise e)"
  then show "main cfg avconv fs0 warmup (pre @ sl # later) =
      (st'\<lparr>calls := calls st' @ [StopRecording 1, StopRecording 2]\<rparr>,
       if e = KeyboardInterrupt then Returned else Propagated e)"
    using step_error_leaves_main [of cfg avconv fs0 warmup pre st p sl st' e later] by blast
next
  assume "raised sl = Some e"
  then show "snd (step cfg avconv p sl st) = Raise e"
    by (rule slice_error_raises)
next
  assume "raised sl = None \<and> \<not> motion_detected (motion_output (deliver sl st)) \<and>
    ts_local st = Some stamp \<and> snd (concat_vids stamp (files (deliver sl st))) = Some e"
  then show "snd (step cfg avconv InEpisode sl st) = Raise e"
    using concat_error_raises [of sl st stamp e cfg avconv] by blast
next
  assume "fs ''after.h264'' = None \<and> stamp \<noteq> ''after''"
  then show "snd (concat_vids stamp fs) = Some (FileNotFoundError ''after.h264'')"
    using concat_vids_missing_after [of fs stamp] by blast
next
  assume "raised sl = None \<and> \<not> motion_detected (motion_output (deliver sl st)) \<and>
    convert_vids cfg \<noteq> 0 \<and>
    convert_vids cfg < time_time sl - latest_motion (motion_output (deliver sl st)) \<and>
    ts_local st = Some stamp \<and>
    snd (convert_video avconv stamp (files (deliver sl st))) = Some e"
  then show "snd (step cfg avconv LoopTop sl st) = Raise e"
    using convert_error_raises [of sl st cfg stamp avconv e] by blast
next
  assume q: "snd (main cfg avconv fs0 warmup script) = Propagated e"
  then show "e \<noteq> KeyboardInterrupt"
    by (auto simp: main_def Let_def split: option.splits prod.splits control.splits if_splits)
  from q main_stopped_append [of cfg avconv fs0 warmup script e later]
  show "main cfg avconv fs0 warmup (script @ later) = main cfg avconv fs0 warmup script"
    "\<exists>cs. calls (fst (main cfg avconv fs0 warmup script)) = cs @ [StopRecording 1, StopRecording 2]"
    by blast+
next
  assume "snd (main cfg avconv fs0 warmup script) = Returned"
  with main_stopped_append [of cfg avconv fs0 warmup script e later]
  show "main cfg avconv fs0 warmup (script @ later) = main cfg avconv fs0 warmup script"
    by blast
qed

theorem error_ends_monitoring_witness:
  "snd (main main_defaults (\<lambda>cmd fs. Exited 0 fs) Map.empty (idle_slice 2 (clock 2))
          [motion_slice 10 (clock 3)]) = Running InEpisode \<and>
   files (deliver ((still_slice 16 (clock 4))\<lparr>unlinked := [''after.h264'']\<rparr>)
     (fst (main main_defaults (\<lambda>cmd fs. Exited 0 fs) Map.empty (idle_slice 2 (clock 2))
          [motion_slice 10 (clock 3)]))) ''after.h264'' = None \<and>
   snd (step main_defaults (\<lambda>cmd fs. Exited 0 fs) InEpisode
          ((still_slice 16 (clock 4))\<lparr>unlinked := [''after.h264'']\<rparr>)
          (fst (main main_defaults (\<lambda>cmd fs. Exited 0 fs) Map.empty (idle_slice 2 (clock 2))
             [motion_slice 10 (clock 3)])))
     = Raise (FileNotFoundError ''after.h264'') \<and>
   snd (main main_defaults (\<lambda>cmd fs. Exited 0 fs) Map.empty (idle_slice 2 (clock 2))
          ([motion_slice 10 (clock 3)] @
           (still_slice 16 (clock 4))\<lparr>unlinked := [''after.h264'']\<rparr> #
           [motion_slice 20 (clock 7)]))
     = Propagated (FileNotFoundError ''after.h264'') \<and>
   snd (main main_defaults (\<lambda>cmd fs. Exited 0 fs) Map.empty (idle_slice 2 (clock 2))
          [motion_slice 10 (clock 3), (still_slice 16 (clock 4))\<lparr>unlinked := [''after.h264'']\<rparr>])
     = Propagated (FileNotFoundError ''after.h264'') \<and>
   main main_defaults (\<lambda>cmd fs. Exited 0 fs) Map.empty (idle_slice 2 (clock 2))
     ([motion_slice 10 (clock 3), (still_slice 16 (clock 4))\<lparr>unlinked := [''after.h264'']\<rparr>] @
      [motion_slice 20 (clock 7)])
     = main main_defaults (\<lambda>cmd fs. Exited 0 fs) Map.empty (idle_slice 2 (clock 2))
         [motion_slice 10 (clock 3), (still_slice 16 (clock 4))\<lparr>unlinked := [''after.h264'']\<rparr>] \<and>
   snd (main main_defaults (\<lambda>cmd fs. Exited 0 fs) Map.empty (idle_slice 2 (clock 2))
          [(idle_slice 3 (clock 3))\<lparr>raised := Some KeyboardInterrupt\<rparr>])
     = Returned \<and>
   main main_defaults (\<lambda>cmd fs. Exited 0 fs) Map.empty (idle_slice 2 (clock 2))
     ([(idle_slice 3 (clock 3))\<lparr>raised := Some KeyboardInterrupt\<rparr>] @ [motion_slice 20 (clock 7)])
     = main main_defaults (\<lambda>cmd fs. Exited 0 fs) Map.empty (idle_slice 2 (clock 2))
         [(idle_slice 3 (clock 3))\<lparr>raised := Some KeyboardInterrupt\<rparr>]"
proof -
  let ?av = "\<lambda>(cmd :: string list) (fs :: filesystem). Exited 0 fs"
  let ?w = "idle_slice 2 (clock 2)"
  let ?pre = "[motion_slice 10 (clock 3)]"
  let ?sl = "(still_slice 16 (clock 4))\<lparr>unlinked := [''after.h264'']\<rparr>"
  let ?later = "[motion_slice 20 (clock 7)]"
  let ?s1 = "[motion_slice 10 (clock 3), ?sl]"
  let ?s2 = "[(idle_slice 3 (clock 3))\<lparr>raised := Some KeyboardInterrupt\<rparr>]"
  let ?st = "fst (main main_defaults ?av Map.empty ?w ?pre)"
  let ?st' = "fst (step main_defaults ?av InEpisode ?sl ?st)"
  let ?e = "FileNotFoundError ''after.h264''"
  note T = error_ends_monitoring [of main_defaults ?av Map.empty ?w ?pre ?st InEpisode ?sl ?st'
      ?e ?later "''2024-01-01-120003''" "files (deliver ?sl ?st)" ?s1]
  note T2 = error_ends_monitoring [of main_defaults ?av Map.empty ?w ?pre ?st InEpisode ?sl ?st'
      ?e ?later "''2024-01-01-120003''" "files (deliver ?sl ?st)" ?s2]
  have r: "snd (main main_defaults ?av Map.empty ?w ?pre) = Running InEpisode"
    by (simp add: run_main)
  then have m: "main main_defaults ?av Map.empty ?w ?pre = (?st, Running InEpisode)"
    by (metis prod.collapse)
  have gone: "files (deliver ?sl ?st) ''after.h264'' = None"
    by (simp add: run_main deliver_def record_video_def still_slice_def idle_slice_def)
  have quiet: "raised ?sl = None" "\<not> motion_detected (motion_output (deliver ?sl ?st))"
    "ts_local ?st = Some ''2024-01-01-120003''"
    by (simp_all add: run_main still_slice_def idle_slice_def)
  from T gone have ce: "snd (concat_vids ''2024-01-01-120003'' (files (deliver ?sl ?st))) = Some ?e"
    by simp
  from T quiet ce have se: "snd (step main_defaults ?av InEpisode ?sl ?st) = Raise ?e"
    by blast
  then have s: "step main_defaults ?av InEpisode ?sl ?st = (?st', Raise ?e)"
    by (metis prod.collapse)
  from T m s have "main main_defaults ?av Map.empty ?w (?pre @ ?sl # ?later) =
      (?st'\<lparr>calls := calls ?st' @ [StopRecording 1, StopRecording 2]\<rparr>,
       if ?e = KeyboardInterrupt then Returned else Propagated ?e)"
    by blast
  then have out: "snd (main main_defaults ?av Map.empty ?w (?pre @ ?sl # ?later)) = Propagated ?e"
    by simp
  have a: "snd (main main_defaults ?av Map.empty ?w ?s1) = Propagated ?e"
    by (simp add: run_main deliver_def record_video_def still_slice_def idle_slice_def)
  have b: "snd (main main_defaults ?av Map.empty ?w ?s2) = Returned"
    by (simp add: run_main deliver_def record_video_def idle_slice_def)
  from a T have c: "main main_defaults ?av Map.empty ?w (?s1 @ ?later)
      = main main_defaults ?av Map.empty ?w ?s1"
    by blast
  from b T2 have d: "main main_defaults ?av Map.empty ?w (?s2 @ ?later)
      = main main_defaults ?av Map.empty ?w ?s2"
    by blast
  from r gone se out a b c d show ?thesis by blast
qed

end
